theory Spec2Isabelle
  imports Main "HOL-Library.Word" "HOL-Library.AList"
begin

unbundle bit_operations_syntax

section \<open>Bytes, slices and hardware addresses\<close>

text \<open>
  A Go \<^verbatim>\<open>[]byte\<close> is a window on a backing array: \<open>elems\<close> are the bytes below
  its length, \<open>spare\<close> the bytes of the backing array between length and capacity.
  A slice expression \<^verbatim>\<open>p[lo:hi]\<close> is checked against the capacity, not the length,
  and panics when \<open>hi\<close> exceeds it.
\<close>

type_synonym byte = "8 word"

datatype slice = Slice (elems: "byte list") (spare: "byte list")

datatype panic = SliceBoundsOutOfRange

definition len :: "slice \<Rightarrow> nat" where
  "len p = length (elems p)"

definition cap :: "slice \<Rightarrow> nat" where
  "cap p = length (elems p) + length (spare p)"

definition backing :: "slice \<Rightarrow> byte list" where
  "backing p = elems p @ spare p"

definition reslice :: "slice \<Rightarrow> nat \<Rightarrow> nat \<Rightarrow> panic + slice" where
  "reslice p lo hi =
     (if lo \<le> hi \<and> hi \<le> cap p
      then Inr (Slice (take (hi - lo) (drop lo (backing p))) (drop hi (backing p)))
      else Inl SliceBoundsOutOfRange)"

text \<open>\<^verbatim>\<open>copy(dst, src)\<close> overwrites the first \<open>min (len dst) (len src)\<close> elements of \<open>dst\<close>.\<close>

definition copy_bytes :: "byte list \<Rightarrow> byte list \<Rightarrow> byte list" where
  "copy_bytes dst src =
     take (min (length dst) (length src)) src @ drop (min (length dst) (length src)) dst"

text \<open>\<^verbatim>\<open>type MacAddr [6]byte\<close>; \<^verbatim>\<open>var mac MacAddr\<close> is six zero bytes.\<close>

type_synonym MacAddr = "byte list"

definition zeroMac :: MacAddr where
  "zeroMac = [0, 0, 0, 0, 0, 0]"

definition defaultMac :: MacAddr where
  "defaultMac = [0xFF, 0xFF, 0xFF, 0xFF, 0xFF, 0xFF]"

subsection \<open>src/shared/util.go\<close>

definition GetSrcMAC :: "slice \<Rightarrow> panic + MacAddr" where
  "GetSrcMAC packet =
     (case reslice packet 6 12 of
        Inl e \<Rightarrow> Inl e
      | Inr src \<Rightarrow> Inr (copy_bytes zeroMac (elems src)))"

definition GetDestMAC :: "slice \<Rightarrow> panic + MacAddr" where
  "GetDestMAC packet =
     (case reslice packet 0 6 of
        Inl e \<Rightarrow> Inl e
      | Inr src \<Rightarrow> Inr (copy_bytes zeroMac (elems src)))"

definition MACIsUnicast :: "MacAddr \<Rightarrow> bool" where
  "MACIsUnicast mac = ((mac ! 0) AND 1 = 0)"

subsection \<open>The variant of util.go with 16-byte address fields (src/unnamed/part_001)\<close>

definition GetSrcMAC16 :: "slice \<Rightarrow> panic + MacAddr" where
  "GetSrcMAC16 packet =
     (case reslice packet 16 32 of
        Inl e \<Rightarrow> Inl e
      | Inr src \<Rightarrow> Inr (copy_bytes zeroMac (elems src)))"

definition GetDestMAC16 :: "slice \<Rightarrow> panic + MacAddr" where
  "GetDestMAC16 packet =
     (case reslice packet 0 16 of
        Inl e \<Rightarrow> Inl e
      | Inr src \<Rightarrow> Inr (copy_bytes zeroMac (elems src)))"

section \<open>Go strings\<close>

text \<open>
  A Go string is a byte sequence; \<^verbatim>\<open>string(msg)\<close> and \<^verbatim>\<open>[]byte(str)\<close> convert
  byte by byte.
\<close>

definition string_of_bytes :: "byte list \<Rightarrow> string" where
  "string_of_bytes bs = map (\<lambda>b. char_of (unat b)) bs"

definition bytes_of_string :: "string \<Rightarrow> byte list" where
  "bytes_of_string str = map (\<lambda>c. of_char c) str"

text \<open>\<^verbatim>\<open>strings.Split(str, sep)\<close> for a separator of one byte: never an empty result.\<close>

fun Split :: "string \<Rightarrow> char \<Rightarrow> string list" where
  "Split [] sep = [[]]"
| "Split (c # cs) sep =
     (if c = sep then [] # Split cs sep
      else (case Split cs sep of
              [] \<Rightarrow> [[c]]
            | f # fs \<Rightarrow> (c # f) # fs))"

text \<open>\<^verbatim>\<open>strings.Join(args, sep)\<close>.\<close>

fun Join :: "string list \<Rightarrow> string \<Rightarrow> string" where
  "Join [] sep = []"
| "Join [a] sep = a"
| "Join (a # b # rest) sep = a @ sep @ Join (b # rest) sep"

text \<open>\<^verbatim>\<open>fmt.Sprintf("%d", n)\<close> for an unsigned \<open>n\<close>.\<close>

fun decimal :: "nat \<Rightarrow> string" where
  "decimal n =
     (if n < 10 then [char_of (48 + n)]
      else decimal (n div 10) @ [char_of (48 + n mod 10)])"

text \<open>\<^verbatim>\<open>fmt.Sprintf("%v", b)\<close> for a boolean.\<close>

definition sprint_bool :: "bool \<Rightarrow> string" where
  "sprint_bool b = (if b then ''true'' else ''false'')"

section \<open>Endpoints and the process-wide tables (src/shared/socketHandler.go)\<close>

text \<open>
  A \<^verbatim>\<open>*Socket\<close> is an address in a store of Socket objects. The transport connection
  and the tunnel interface are outside the program: a call on one of them is an event
  of the trace. The locks only serialise critical sections and are not part of the
  state; \<open>closechan\<close> is represented by \<open>closechanopen\<close> and the event of closing it.
\<close>

type_synonym sockid = nat
type_synonym ifaceid = nat
type_synonym handlerid = nat
type_synonym reapid = nat

definition TextMessage :: int where "TextMessage = 1"
definition BinaryMessage :: int where "BinaryMessage = 2"
definition PingMessage :: int where "PingMessage = 9"

datatype logline =
    LogWriteError
  | LogReadError
  | LogInvalidCommand
  | LogReply string string
  | LogCommandError string

datatype event =
    ConnWrite sockid int "byte list"
  | ConnClose sockid
  | IfaceWrite sockid ifaceid "byte list"
  | IfaceClose sockid ifaceid
  | ChanClose sockid
  | Reap sockid reapid string
  | Invoke sockid handlerid "string list"
  | Log sockid logline

record Socket =
  clientIP :: string
  iface :: "ifaceid option"
  wg :: int
  handlers :: "string \<rightharpoonup> handlerid"
  closechanopen :: bool
  mac :: MacAddr
  reaper :: "reapid option"
  reaped :: bool

text \<open>
  \<open>macTable\<close> is only read and written by key; \<open>allSockets\<close> is iterated, so it is an
  association list, in one of the orders the iteration may take. \<open>writeFails\<close> is the
  environment's answer to \<^verbatim>\<open>s.conn.WriteMessage\<close>: whether the write on that
  connection returns an error.
\<close>

record world =
  sockets :: "sockid \<Rightarrow> Socket"
  macTable :: "MacAddr \<rightharpoonup> sockid"
  allSockets :: "(sockid \<times> sockid) list"
  lastCommandId :: "64 word"
  writeFails :: "sockid \<Rightarrow> bool"
  trace :: "event list"

definition emit :: "event \<Rightarrow> world \<Rightarrow> world" where
  "emit e w = w\<lparr>trace := trace w @ [e]\<rparr>"

definition setSocket :: "sockid \<Rightarrow> Socket \<Rightarrow> world \<Rightarrow> world" where
  "setSocket s v w = w\<lparr>sockets := (sockets w)(s := v)\<rparr>"

definition MakeSocket :: "string \<Rightarrow> ifaceid option \<Rightarrow> reapid option \<Rightarrow> Socket" where
  "MakeSocket ip ifc fn =
     \<lparr>clientIP = ip, iface = ifc, wg = 0, handlers = Map.empty, closechanopen = True,
      mac = defaultMac, reaper = fn, reaped = False\<rparr>"

definition AddCommandHandler :: "sockid \<Rightarrow> string \<Rightarrow> handlerid \<Rightarrow> world \<Rightarrow> world" where
  "AddCommandHandler s command handler w =
     setSocket s ((sockets w s)\<lparr>handlers := (handlers (sockets w s))(command \<mapsto> handler)\<rparr>) w"

definition FindSocketByMAC :: "MacAddr \<Rightarrow> world \<Rightarrow> sockid option" where
  "FindSocketByMAC m w = macTable w m"

definition Close :: "sockid \<Rightarrow> world \<Rightarrow> world" where
  "Close s w =
     (let w1 = emit (ConnClose s) w;
          w2 = (case iface (sockets w1 s) of
                  None \<Rightarrow> w1
                | Some i \<Rightarrow> emit (IfaceClose s i) w1);
          w3 = (if closechanopen (sockets w2 s)
                then emit (ChanClose s) (setSocket s ((sockets w2 s)\<lparr>closechanopen := False\<rparr>) w2)
                else w2);
          w4 = (if mac (sockets w3 s) \<noteq> defaultMac
                then setSocket s ((sockets w3 s)\<lparr>mac := defaultMac\<rparr>)
                       (w3\<lparr>macTable := (macTable w3)(mac (sockets w3 s) := None)\<rparr>)
                else w3)
      in w4\<lparr>allSockets := AList.delete s (allSockets w4)\<rparr>)"

text \<open>The result's first component is \<^verbatim>\<open>err != nil\<close>.\<close>

definition WriteMessage :: "sockid \<Rightarrow> int \<Rightarrow> byte list \<Rightarrow> world \<Rightarrow> bool \<times> world" where
  "WriteMessage s msgType data w =
     (let w1 = emit (ConnWrite s msgType data) w
      in if writeFails w1 s
         then (True, Close s (emit (Log s LogWriteError) w1))
         else (False, w1))"

fun writeEach :: "sockid list \<Rightarrow> int \<Rightarrow> byte list \<Rightarrow> world \<Rightarrow> world" where
  "writeEach [] msgType data w = w"
| "writeEach (v # vs) msgType data w = writeEach vs msgType data (snd (WriteMessage v msgType data w))"

definition BroadcastMessage :: "int \<Rightarrow> byte list \<Rightarrow> sockid \<Rightarrow> world \<Rightarrow> world" where
  "BroadcastMessage msgType data skip w =
     (let targetList = filter (\<lambda>v. v \<noteq> skip) (map snd (allSockets w))
      in writeEach targetList msgType data w)"

definition rawSendCommand :: "sockid \<Rightarrow> string \<Rightarrow> string \<Rightarrow> string list \<Rightarrow> world \<Rightarrow> bool \<times> world" where
  "rawSendCommand s commandId command args w =
     WriteMessage s TextMessage
       (bytes_of_string (commandId @ ''|'' @ command @ ''|'' @ Join args ''|'')) w"


definition closeDone :: "sockid \<Rightarrow> world \<Rightarrow> world" where
  "closeDone s w =
     (let w1 = setSocket s ((sockets w s)\<lparr>wg := wg (sockets w s) - 1\<rparr>) w;
          w2 = Close s w1
      in (case reaper (sockets w2 s) of
            None \<Rightarrow> w2
          | Some fn \<Rightarrow>
              if reaped (sockets w2 s) = False
              then setSocket s ((sockets w2 s)\<lparr>reaped := True\<rparr>)
                     (emit (Reap s fn (clientIP (sockets w2 s))) w2)
              else w2))"

definition setMACFrom :: "sockid \<Rightarrow> slice \<Rightarrow> world \<Rightarrow> panic + world" where
  "setMACFrom s msg w =
     (case GetSrcMAC msg of
        Inl e \<Rightarrow> Inl e
      | Inr srcMac \<Rightarrow>
          if \<not> MACIsUnicast srcMac \<or> srcMac = mac (sockets w s) then Inr w
          else
            (let w1 = (if mac (sockets w s) \<noteq> defaultMac
                       then w\<lparr>macTable := (macTable w)(mac (sockets w s) := None)\<rparr>
                       else w);
                 w2 = setSocket s ((sockets w1 s)\<lparr>mac := srcMac\<rparr>) w1
             in Inr (w2\<lparr>macTable := (macTable w2)(srcMac \<mapsto> s)\<rparr>)))"

subsection \<open>The transport-read pump of Serve\<close>

text \<open>
  A command handler is a closure of the caller: \<open>H h args w\<close> gives whether it returned
  an error, and the state it left. The pump is a loop over the results of
  \<^verbatim>\<open>s.conn.ReadMessage()\<close>; a read error ends it through the deferred \<open>closeDone\<close>.
\<close>

type_synonym handler_sem = "handlerid \<Rightarrow> string list \<Rightarrow> world \<Rightarrow> bool \<times> world"

datatype readResult = ReadError bool | Message int slice

definition ifaceWrite :: "sockid \<Rightarrow> slice \<Rightarrow> world \<Rightarrow> world" where
  "ifaceWrite s msg w =
     (case iface (sockets w s) of
        None \<Rightarrow> w
      | Some i \<Rightarrow> emit (IfaceWrite s i (elems msg)) w)"

definition Serve_binary :: "sockid \<Rightarrow> slice \<Rightarrow> world \<Rightarrow> panic + world" where
  "Serve_binary s msg w =
     (if len msg \<ge> 14 then
        (case setMACFrom s msg w of
           Inl e \<Rightarrow> Inl e
         | Inr w1 \<Rightarrow>
             (case GetDestMAC msg of
                Inl e \<Rightarrow> Inl e
              | Inr dest \<Rightarrow>
                  if MACIsUnicast dest then
                    (case FindSocketByMAC dest w1 of
                       Some sd \<Rightarrow> Inr (snd (WriteMessage sd BinaryMessage (elems msg) w1))
                     | None \<Rightarrow> Inr (ifaceWrite s msg w1))
                  else Inr (ifaceWrite s msg (BroadcastMessage BinaryMessage (elems msg) s w1))))
      else Inr (ifaceWrite s msg w))"

definition Serve_text :: "handler_sem \<Rightarrow> sockid \<Rightarrow> slice \<Rightarrow> world \<Rightarrow> world" where
  "Serve_text H s msg w =
     (let str = Split (string_of_bytes (elems msg)) (CHR ''|'')
      in if length str < 2 then emit (Log s LogInvalidCommand) w
         else
           (let commandId = str ! 0; commandName = str ! 1
            in if commandName = ''reply''
               then emit (Log s (LogReply commandId (if length str > 2 then str ! 2 else ''N/A''))) w
               else
                 (let (err, w1) =
                        (case handlers (sockets w s) commandName of
                           None \<Rightarrow> (True, w)
                         | Some handler \<Rightarrow> H handler (drop 2 str) (emit (Invoke s handler (drop 2 str)) w));
                      w2 = (if err then emit (Log s (LogCommandError commandName)) w1 else w1)
                  in snd (rawSendCommand s commandId ''reply'' [sprint_bool (\<not> err)] w2))))"

definition Serve_message :: "handler_sem \<Rightarrow> sockid \<Rightarrow> int \<Rightarrow> slice \<Rightarrow> world \<Rightarrow> panic + world" where
  "Serve_message H s msgType msg w =
     (if msgType = BinaryMessage then Serve_binary s msg w
      else if msgType = TextMessage then Inr (Serve_text H s msg w)
      else Inr w)"

fun Serve_readPump :: "handler_sem \<Rightarrow> sockid \<Rightarrow> readResult list \<Rightarrow> world \<Rightarrow> panic + world" where
  "Serve_readPump H s [] w = Inr w"
| "Serve_readPump H s (ReadError unexpected # rest) w =
     Inr (closeDone s (if unexpected then emit (Log s LogReadError) w else w))"
| "Serve_readPump H s (Message msgType msg # rest) w =
     (case Serve_message H s msgType msg w of
        Inl e \<Rightarrow> Inl e
      | Inr w1 \<Rightarrow> Serve_readPump H s rest w1)"

text \<open>
  What Serve does before it returns: the Endpoint joins \<open>allSockets\<close>, and the
  completion counter counts the background tasks it starts (the tunnel-read pump only
  when an interface is bound).
\<close>

definition Serve_start :: "sockid \<Rightarrow> world \<Rightarrow> world" where
  "Serve_start s w =
     (let n = (if iface (sockets w s) = None then 2 else 3);
          w1 = setSocket s ((sockets w s)\<lparr>wg := wg (sockets w s) + n\<rparr>) w
      in w1\<lparr>allSockets := AList.update s s (allSockets w1)\<rparr>)"

subsection \<open>The variant of socketHandler.go with an IPv6 switch (src/unnamed/part_000)\<close>

text \<open>
  This variant goes with the 16-byte address fields of src/unnamed/part_001; its
  \<open>Close\<close>, \<open>WriteMessage\<close>, \<open>BroadcastMessage\<close> and \<open>closeDone\<close> are those above.
\<close>

definition setMACFrom16 :: "sockid \<Rightarrow> slice \<Rightarrow> world \<Rightarrow> panic + world" where
  "setMACFrom16 s msg w =
     (case GetSrcMAC16 msg of
        Inl e \<Rightarrow> Inl e
      | Inr srcMac \<Rightarrow>
          if \<not> MACIsUnicast srcMac \<or> srcMac = mac (sockets w s) then Inr w
          else
            (let w1 = (if mac (sockets w s) \<noteq> defaultMac
                       then w\<lparr>macTable := (macTable w)(mac (sockets w s) := None)\<rparr>
                       else w);
                 w2 = setSocket s ((sockets w1 s)\<lparr>mac := srcMac\<rparr>) w1
             in Inr (w2\<lparr>macTable := (macTable w2)(srcMac \<mapsto> s)\<rparr>)))"

definition Serve_binary16 :: "bool \<Rightarrow> sockid \<Rightarrow> slice \<Rightarrow> world \<Rightarrow> panic + world" where
  "Serve_binary16 ipv6 s msg w =
     (if len msg \<ge> 14 then
        (if ipv6 = False then
           (case setMACFrom16 s msg w of
              Inl e \<Rightarrow> Inl e
            | Inr w1 \<Rightarrow>
                (case GetDestMAC16 msg of
                   Inl e \<Rightarrow> Inl e
                 | Inr dest \<Rightarrow>
                     if MACIsUnicast dest then
                       (case FindSocketByMAC dest w1 of
                          Some sd \<Rightarrow> Inr (snd (WriteMessage sd BinaryMessage (elems msg) w1))
                        | None \<Rightarrow> Inr (ifaceWrite s msg w1))
                     else Inr (ifaceWrite s msg (BroadcastMessage BinaryMessage (elems msg) s w1))))
         else Inr (ifaceWrite s msg (BroadcastMessage BinaryMessage (elems msg) s w)))
      else Inr (ifaceWrite s msg w))"

subsection \<open>closeDone, statement by statement\<close>

text \<open>
  Each background task of an Endpoint ends in \<open>closeDone\<close>, and the tasks run
  concurrently. \<open>closeDone\<close> holds no lock across its statements (\<open>Close\<close> takes the
  write lock for its own body only), so its statements interleave with those of the
  other tasks. A label is the statement a task executes next.
\<close>

datatype label = AtDone | AtClose | AtCheck | AtInvoke | AtSetReaped | AtEnd

definition closeDone_step :: "sockid \<Rightarrow> label \<Rightarrow> world \<Rightarrow> label \<times> world" where
  "closeDone_step s l w =
     (case l of
        AtDone \<Rightarrow> (AtClose, setSocket s ((sockets w s)\<lparr>wg := wg (sockets w s) - 1\<rparr>) w)
      | AtClose \<Rightarrow> (AtCheck, Close s w)
      | AtCheck \<Rightarrow>
          (if reaper (sockets w s) \<noteq> None \<and> reaped (sockets w s) = False then AtInvoke else AtEnd, w)
      | AtInvoke \<Rightarrow>
          (AtSetReaped,
           (case reaper (sockets w s) of
              None \<Rightarrow> w
            | Some fn \<Rightarrow> emit (Reap s fn (clientIP (sockets w s))) w))
      | AtSetReaped \<Rightarrow> (AtEnd, setSocket s ((sockets w s)\<lparr>reaped := True\<rparr>) w)
      | AtEnd \<Rightarrow> (AtEnd, w))"

text \<open>One step of task \<open>i\<close>; a schedule is the order in which the tasks take steps.\<close>

definition task_step :: "sockid \<Rightarrow> nat \<Rightarrow> label list \<times> world \<Rightarrow> label list \<times> world" where
  "task_step s i st =
     (if i < length (fst st)
      then (let (l, w) = closeDone_step s (fst st ! i) (snd st) in ((fst st)[i := l], w))
      else st)"

definition run_schedule :: "sockid \<Rightarrow> nat list \<Rightarrow> label list \<times> world \<Rightarrow> label list \<times> world" where
  "run_schedule s sched st = fold (task_step s) sched st"

section \<open>Observations on a trace\<close>

text \<open>The transport writes and the tunnel writes of a trace, in order.\<close>

fun conn_writes :: "event list \<Rightarrow> (sockid \<times> int \<times> byte list) list" where
  "conn_writes [] = []"
| "conn_writes (ConnWrite v msgType data # es) = (v, msgType, data) # conn_writes es"
| "conn_writes (e # es) = conn_writes es"

fun iface_writes :: "event list \<Rightarrow> (sockid \<times> ifaceid \<times> byte list) list" where
  "iface_writes [] = []"
| "iface_writes (IfaceWrite v i data # es) = (v, i, data) # iface_writes es"
| "iface_writes (e # es) = iface_writes es"

definition chan_closes :: "sockid \<Rightarrow> event list \<Rightarrow> nat" where
  "chan_closes s es = count_list es (ChanClose s)"

text \<open>How often the reap callback of \<open>s\<close> has been invoked.\<close>

definition reaps :: "sockid \<Rightarrow> world \<Rightarrow> nat" where
  "reaps s w = length (filter (\<lambda>e. case e of Reap s' fn client \<Rightarrow> s' = s | _ \<Rightarrow> False) (trace w))"



text \<open>The members of the Global Endpoint Set: the values \<open>BroadcastMessage\<close> ranges over.\<close>

definition members :: "world \<Rightarrow> sockid set" where
  "members w = snd ` set (allSockets w)"

text \<open>
  \<open>allSockets\<close> is a Go map (no key twice) and every insertion is
  \<^verbatim>\<open>allSockets[s] = s\<close>.
\<close>

definition allSockets_ok :: "world \<Rightarrow> bool" where
  "allSockets_ok w =
     (distinct (map fst (allSockets w)) \<and> (\<forall>kv \<in> set (allSockets w). fst kv = snd kv))"

text \<open>
  Every entry of the switching table is filed under its owner's learned address, and
  only unicast addresses are keys.
\<close>

definition macTable_ok :: "world \<Rightarrow> bool" where
  "macTable_ok w =
     (\<forall>m e. macTable w m = Some e \<longrightarrow> mac (sockets w e) = m \<and> MACIsUnicast m)"

text \<open>The closing signal of \<open>s\<close> has been given once exactly when \<open>closechanopen\<close> is off.\<close>

definition chan_ok :: "sockid \<Rightarrow> world \<Rightarrow> bool" where
  "chan_ok s w = (chan_closes s (trace w) = (if closechanopen (sockets w s) then 0 else 1))"

text \<open>The states the operations produce.\<close>

definition world_ok :: "world \<Rightarrow> bool" where
  "world_ok w = (allSockets_ok w \<and> macTable_ok w \<and> (\<forall>s. chan_ok s w))"

definition owned :: "world \<Rightarrow> sockid \<Rightarrow> MacAddr set" where
  "owned w e = {m. macTable w m = Some e}"

section \<open>The address pool of the server (cmd_server.go, src/unnamed/part_003)\<close>

text \<open>
  \<^verbatim>\<open>net.IP\<close>, \<^verbatim>\<open>net.IPNet\<close> and their methods belong to Go's standard library; they
  are modelled for 4-byte addresses, the form \<^verbatim>\<open>ip.Mask(subnet.Mask)\<close> returns for an
  IPv4 subnet: \<open>IP_Mask\<close> is the bytewise AND, \<open>Contains\<close> compares the masked bytes,
  \<open>IP_String\<close> is the dotted decimal form.
\<close>

type_synonym IP = "byte list"

record IPNet =
  IP :: IP
  Mask :: IP

definition IP_Mask :: "IP \<Rightarrow> IP \<Rightarrow> IP" where
  "IP_Mask addr m = (if length addr = length m then map2 (\<lambda>a b. a AND b) addr m else [])"

definition Contains :: "IPNet \<Rightarrow> IP \<Rightarrow> bool" where
  "Contains n addr =
     (length addr = length (IP n)
      \<and> map2 (\<lambda>a b. a AND b) (IP n) (Mask n) = map2 (\<lambda>a b. a AND b) addr (Mask n))"

definition IP_String :: "IP \<Rightarrow> string" where
  "IP_String addr = Join (map (\<lambda>b. decimal (unat b)) addr) ''.''"

text \<open>\<^verbatim>\<open>strings.HasSuffix(s, suffix)\<close>.\<close>

definition HasSuffix :: "string \<Rightarrow> string \<Rightarrow> bool" where
  "HasSuffix str suffix =
     (length suffix \<le> length str \<and> drop (length str - length suffix) str = suffix)"

text \<open>
  \<open>incIP\<close> walks from the last byte to the first, adding one with wrap-around and
  stopping at the first byte that did not wrap to zero; \<open>incIP_rev\<close> is that loop on the
  reversed address.
\<close>

fun incIP_rev :: "byte list \<Rightarrow> byte list" where
  "incIP_rev [] = []"
| "incIP_rev (b # bs) = (if b + 1 > 0 then (b + 1) # bs else (b + 1) # incIP_rev bs)"

definition incIP :: "IP \<Rightarrow> IP" where
  "incIP addr = rev (incIP_rev (rev addr))"

record connection =
  localIP :: string
  remoteIP :: string
  name :: string

text \<open>
  \<open>assigned\<close> is a \<^verbatim>\<open>map[string]*connection\<close>: a key may be absent, or present with
  a nil pointer; both read as nil. \<open>Config\<close> is the reader's \<open>Settings\<close>; \<open>ip\<close> and
  \<open>subnet\<close> are the package-level results of \<^verbatim>\<open>net.ParseCIDR\<close>.
\<close>

record serverCmd =
  assigned :: "string \<rightharpoonup> connection option"
  Config :: "string \<rightharpoonup> string"
  serverIP :: string
  ip :: IP
  subnet :: IPNet

datatype error = OutOfIPAddresses

definition Get :: "(string \<rightharpoonup> string) \<Rightarrow> string \<Rightarrow> string" where
  "Get settings key = (case settings key of None \<Rightarrow> [] | Some v \<Rightarrow> v)"

definition isNil :: "connection option option \<Rightarrow> bool" where
  "isNil c = (case c of Some (Some x) \<Rightarrow> False | _ \<Rightarrow> True)"

definition bind_address :: "string \<Rightarrow> string \<Rightarrow> string \<Rightarrow> serverCmd \<Rightarrow> serverCmd" where
  "bind_address s nm remote p =
     p\<lparr>assigned := (assigned p)(s \<mapsto> Some \<lparr>localIP = s, remoteIP = remote, name = nm\<rparr>)\<rparr>"

text \<open>
  The loops over the range end when an address falls outside the subnet; nothing in
  the code bounds them otherwise, so not returning is the value \<open>None\<close>.
\<close>

partial_function (option) pickIP_scan ::
  "string \<Rightarrow> string \<Rightarrow> serverCmd \<Rightarrow> IP \<Rightarrow> ((error + string) \<times> serverCmd) option" where
  "pickIP_scan nm remote p cur =
     (if Contains (subnet p) cur then
        (if HasSuffix (IP_String cur) ''.0'' then pickIP_scan nm remote p (incIP cur)
         else if isNil (assigned p (IP_String cur))
           then Some (Inr (IP_String cur), bind_address (IP_String cur) nm remote p)
           else pickIP_scan nm remote p (incIP cur))
      else Some (Inl OutOfIPAddresses, p))"

definition pickIP :: "string \<Rightarrow> string \<Rightarrow> serverCmd \<Rightarrow> ((error + string) \<times> serverCmd) option" where
  "pickIP nm remote p =
     (let fixed = Get (Config p) (''host_'' @ nm)
      in if fixed \<noteq> [] \<and> isNil (assigned p fixed)
         then Some (Inr fixed, bind_address fixed nm remote p)
         else pickIP_scan nm remote p (IP_Mask (ip p) (Mask (subnet p))))"

text \<open>The start of \<open>Execute\<close>: every address of the range is marked, the first one for the server.\<close>

definition mark_address :: "string \<Rightarrow> serverCmd \<Rightarrow> serverCmd" where
  "mark_address s p =
     (let p1 = p\<lparr>assigned := (assigned p)(s \<mapsto> None)\<rparr>
      in if serverIP p1 = []
         then bind_address s ''vpn-server'' s (p1\<lparr>serverIP := s\<rparr>)
         else p1)"

partial_function (option) Execute_scan :: "serverCmd \<Rightarrow> IP \<Rightarrow> serverCmd option" where
  "Execute_scan p cur =
     (if Contains (subnet p) cur then
        (if HasSuffix (IP_String cur) ''.0'' then Execute_scan p (incIP cur)
         else Execute_scan (mark_address (IP_String cur) p) (incIP cur))
      else Some p)"

definition Execute_init :: "serverCmd \<Rightarrow> serverCmd option" where
  "Execute_init p =
     Execute_scan (p\<lparr>assigned := Map.empty\<rparr>) (IP_Mask (ip p) (Mask (subnet p)))"

text \<open>The reap callback of \<open>serveWs\<close>, on the pool.\<close>

definition reapIP :: "string \<Rightarrow> serverCmd \<Rightarrow> serverCmd" where
  "reapIP x p = (if \<not> isNil (assigned p x) then p\<lparr>assigned := (assigned p)(x \<mapsto> None)\<rparr> else p)"

text \<open>
  A run of the server: clients join (\<open>pickIP\<close> with their name and remote address) and
  leave (the callback with their address), one after another under the pool's lock.
  The results of the joins are collected in order.
\<close>

datatype pool_op = Joins string string | Leaves string

fun run_pool :: "pool_op list \<Rightarrow> serverCmd \<Rightarrow> ((error + string) list \<times> serverCmd) option" where
  "run_pool [] p = Some ([], p)"
| "run_pool (Joins nm remote # ops) p =
     (case pickIP nm remote p of
        None \<Rightarrow> None
      | Some (r, p1) \<Rightarrow>
          (case run_pool ops p1 of
             None \<Rightarrow> None
           | Some (rs, p2) \<Rightarrow> Some (r # rs, p2)))"
| "run_pool (Leaves x # ops) p = run_pool ops (reapIP x p)"

text \<open>
  The server configured with subnet 10.0.0.0/30, before \<open>Execute\<close> marks the range:
  \<^verbatim>\<open>net.ParseCIDR("10.0.0.0/30")\<close> gives the address 10.0.0.0 and the mask
  255.255.255.252.
\<close>

definition server30 :: "(string \<rightharpoonup> string) \<Rightarrow> serverCmd" where
  "server30 cfg =
     \<lparr>assigned = Map.empty, Config = cfg, serverIP = [],
      ip = [10, 0, 0, 0],
      subnet = \<lparr>IP = [10, 0, 0, 0], Mask = [255, 255, 255, 252]\<rparr>\<rparr>"

text \<open>The pool after \<open>Execute\<close> has marked the range 10.0.0.0/30.\<close>

definition pool30 :: "(string \<rightharpoonup> string) \<Rightarrow> serverCmd" where
  "pool30 cfg =
     (server30 cfg)\<lparr>serverIP := ''10.0.0.1'',
        assigned := [''10.0.0.1'' \<mapsto> Some \<lparr>localIP = ''10.0.0.1'', remoteIP = ''10.0.0.1'',
                                           name = ''vpn-server''\<rparr>,
                     ''10.0.0.2'' \<mapsto> None, ''10.0.0.3'' \<mapsto> None]\<rparr>"

section \<open>A relay with three Endpoints\<close>

text \<open>
  Endpoints 11 and 12 have learned an address each and have a tunnel interface and a
  reap callback; Endpoint 13 has learned none and has no interface. All three are
  serving.
\<close>

definition macA :: MacAddr where "macA = [0x02, 0, 0, 0, 0, 0x01]"
definition macB :: MacAddr where "macB = [0x02, 0, 0, 0, 0, 0x02]"
definition macX :: MacAddr where "macX = [0x02, 0, 0, 0, 0, 0x09]"

definition relay_sockets :: "sockid \<Rightarrow> Socket" where
  "relay_sockets =
     (\<lambda>_. MakeSocket ''0'' None None)
       (11 := (MakeSocket ''10.0.0.2'' (Some 21) (Some 0))\<lparr>mac := macA\<rparr>,
        12 := (MakeSocket ''10.0.0.3'' (Some 22) (Some 0))\<lparr>mac := macB\<rparr>)"

definition relay :: world where
  "relay =
     \<lparr>sockets = relay_sockets,
      macTable = [macA \<mapsto> 11, macB \<mapsto> 12],
      allSockets = [(11, 11), (12, 12), (13, 13)],
      lastCommandId = 0,
      writeFails = (\<lambda>_. False),
      trace = []\<rparr>"

text \<open>Frames sent by Endpoint 11: to Endpoint 12, to an address nobody has, to everybody.\<close>

definition frame_to_B :: slice where
  "frame_to_B = Slice (macB @ macA @ [0x08, 0x00, 0x45]) []"

definition frame_to_X :: slice where
  "frame_to_X = Slice (macX @ macA @ [0x08, 0x00, 0x45]) []"

definition frame_to_all :: slice where
  "frame_to_all = Slice (defaultMac @ macA @ [0x08, 0x06, 0x00]) []"

text \<open>
  The frame to the address nobody has, for the variant with 16-byte address fields: 32
  bytes, the source address from byte 16 on.
\<close>

definition frame16_to_X :: slice where
  "frame16_to_X = Slice (macX @ replicate 10 0 @ macA @ replicate 10 0) []"






text \<open>A first frame of Endpoint 13, from an address of its own.\<close>

definition frame_from_C :: slice where
  "frame_from_C = Slice (macA @ macX @ [0x08, 0x00, 0x45]) []"

text \<open>
  Text messages: one with no delimiter, a reply, one for a command nobody handles, and the text
  \<^verbatim>\<open>rawSendCommand("5", "ping")\<close> sends. \<open>H0\<close> is a handler that returns no error and
  touches nothing; Endpoint 12 of \<open>relay_with_handler\<close> has it registered for \<open>ping\<close>.
\<close>

definition H0 :: handler_sem where
  "H0 = (\<lambda>h args w. (False, w))"

definition relay_with_handler :: world where
  "relay_with_handler = AddCommandHandler 12 ''ping'' 4 relay"

definition malformed_command :: slice where
  "malformed_command = Slice (bytes_of_string ''hello'') []"

definition reply_notification :: slice where
  "reply_notification = Slice (bytes_of_string ''7|reply|true'') []"

definition bogus_command :: slice where
  "bogus_command = Slice (bytes_of_string ''7|bogus|x'') []"

definition ping_command :: slice where
  "ping_command = Slice (bytes_of_string ''5|ping|'') []"





declare decimal.simps [simp del]

section \<open>Frame classification\<close>

lemma reslice_in_len:
  "hi \<le> len p \<Longrightarrow> lo \<le> hi \<Longrightarrow>
   reslice p lo hi = Inr (Slice (take (hi - lo) (drop lo (elems p))) (drop hi (backing p)))"
  by (simp add: reslice_def len_def cap_def backing_def)

lemma copy_bytes_six: "length src = 6 \<Longrightarrow> copy_bytes zeroMac src = src"
  by (simp add: copy_bytes_def zeroMac_def)

lemma GetSrcMAC_bytes: "14 \<le> len p \<Longrightarrow> GetSrcMAC p = Inr (take 6 (drop 6 (elems p)))"
  by (simp add: GetSrcMAC_def reslice_in_len copy_bytes_six len_def)

lemma GetDestMAC_bytes: "14 \<le> len p \<Longrightarrow> GetDestMAC p = Inr (take 6 (elems p))"
  by (simp add: GetDestMAC_def reslice_in_len copy_bytes_six len_def)

text \<open>
  With the 6-byte fields of src/shared/util.go, both addresses of a message of at
  least 14 bytes are read from its first 14 bytes: no panic, and two messages that
  agree there (whatever their lengths, capacities and remaining bytes) give the same
  addresses.
\<close>

lemma MAC_fields_within_14:
  assumes "14 \<le> len p" and "14 \<le> len q" and "take 14 (elems p) = take 14 (elems q)"
  shows "GetSrcMAC p = GetSrcMAC q \<and> GetDestMAC p = GetDestMAC q
         \<and> GetSrcMAC p = Inr (take 6 (drop 6 (elems p)))
         \<and> GetDestMAC p = Inr (take 6 (elems p))"
proof -
  have "take 6 (take 14 (elems p)) = take 6 (take 14 (elems q))"
    and "take 6 (drop 6 (take 14 (elems p))) = take 6 (drop 6 (take 14 (elems q)))"
    using assms(3) by simp_all
  then have "take 6 (elems p) = take 6 (elems q)"
    and "take 6 (drop 6 (elems p)) = take 6 (drop 6 (elems q))"
    by (simp_all add: drop_take)
  then show ?thesis
    using assms(1,2) by (simp add: GetSrcMAC_bytes GetDestMAC_bytes)
qed

text \<open>
  With the 16-byte fields of src/unnamed/part_001 the source address is taken from
  \<^verbatim>\<open>packet[16:32]\<close>: the slice expression panics unless the capacity is at least 32,
  and then the six bytes copied are positions 16 to 21 of the backing array, whatever
  the length of the message.
\<close>

lemma GetSrcMAC16_panics: "cap p < 32 \<Longrightarrow> GetSrcMAC16 p = Inl SliceBoundsOutOfRange"
  by (simp add: GetSrcMAC16_def reslice_def)

lemma copy_bytes_longer:
  assumes "6 \<le> length src"
  shows "copy_bytes zeroMac src = take 6 src"
proof -
  have "length zeroMac = 6" by (simp add: zeroMac_def)
  with assms show ?thesis by (simp add: copy_bytes_def)
qed

lemma GetSrcMAC16_bytes:
  assumes "32 \<le> cap p"
  shows "GetSrcMAC16 p = Inr (take 6 (drop 16 (backing p)))"
proof -
  have l: "length (backing p) = cap p"
    by (simp add: backing_def cap_def)
  have "reslice p 16 32 = Inr (Slice (take 16 (drop 16 (backing p))) (drop 32 (backing p)))"
    using assms by (simp add: reslice_def)
  moreover have "copy_bytes zeroMac (take 16 (drop 16 (backing p))) = take 6 (drop 16 (backing p))"
    using assms l by (simp add: copy_bytes_longer)
  ultimately show ?thesis
    by (simp add: GetSrcMAC16_def)
qed

lemma Serve_binary16_panics:
  "14 \<le> len msg \<Longrightarrow> cap msg < 32 \<Longrightarrow> Serve_binary16 False s msg w = Inl SliceBoundsOutOfRange"
  by (simp add: Serve_binary16_def setMACFrom16_def GetSrcMAC16_panics)

text \<open>
  C4. In the variant with 16-byte fields the guard of the pump is still
  \<^verbatim>\<open>len(msg) >= 14\<close>. Endpoint 11 of the relay receives a binary message of 14 zero
  bytes. When the capacity of the message is its length, the slice expression panics,
  in \<open>GetSrcMAC16\<close> and so in the pump; when the backing array has 18 more bytes, the
  six bytes read as the source address are bytes 16 to 21 of the backing array, none
  of them a byte of the message.
\<close>

theorem GetSrcMAC16_outside_message:
  "len (Slice (replicate 14 0) []) = 14
   \<and> GetSrcMAC16 (Slice (replicate 14 0) []) = Inl SliceBoundsOutOfRange
   \<and> Serve_binary16 False 11 (Slice (replicate 14 0) []) relay = Inl SliceBoundsOutOfRange
   \<and> len (Slice (replicate 14 0) (replicate 18 7)) = 14
   \<and> GetSrcMAC16 (Slice (replicate 14 0) (replicate 18 7)) = Inr [7, 7, 7, 7, 7, 7]"
  by (simp add: GetSrcMAC16_def Serve_binary16_def setMACFrom16_def reslice_def cap_def len_def
      backing_def copy_bytes_def zeroMac_def)

section \<open>The effect of the operations on each part of the state\<close>

lemma emit_fields:
  "sockets (emit e w) = sockets w" "macTable (emit e w) = macTable w"
  "allSockets (emit e w) = allSockets w" "writeFails (emit e w) = writeFails w"
  "lastCommandId (emit e w) = lastCommandId w" "trace (emit e w) = trace w @ [e]"
  by (simp_all add: emit_def)

lemma setSocket_fields:
  "sockets (setSocket s v w) = (sockets w)(s := v)" "macTable (setSocket s v w) = macTable w"
  "allSockets (setSocket s v w) = allSockets w" "writeFails (setSocket s v w) = writeFails w"
  "lastCommandId (setSocket s v w) = lastCommandId w" "trace (setSocket s v w) = trace w"
  by (simp_all add: setSocket_def)

lemma Close_sockets:
  "sockets (Close s w) = (sockets w)(s := (sockets w s)\<lparr>closechanopen := False, mac := defaultMac\<rparr>)"
  by (auto simp: Close_def Let_def emit_fields setSocket_fields fun_eq_iff split: option.splits)

lemma Close_macTable:
  "macTable (Close s w) =
     (if mac (sockets w s) \<noteq> defaultMac then (macTable w)(mac (sockets w s) := None) else macTable w)"
  by (auto simp: Close_def Let_def emit_fields setSocket_fields split: option.splits)

lemma Close_allSockets: "allSockets (Close s w) = AList.delete s (allSockets w)"
  by (auto simp: Close_def Let_def emit_fields setSocket_fields split: option.splits)

lemma Close_env: "writeFails (Close s w) = writeFails w" "lastCommandId (Close s w) = lastCommandId w"
  by (auto simp: Close_def Let_def emit_fields setSocket_fields split: option.splits)

lemma Close_trace:
  "trace (Close s w) =
     trace w @ [ConnClose s]
       @ (case iface (sockets w s) of None \<Rightarrow> [] | Some i \<Rightarrow> [IfaceClose s i])
       @ (if closechanopen (sockets w s) then [ChanClose s] else [])"
  by (auto simp: Close_def Let_def emit_fields setSocket_fields split: option.splits)

lemma conn_writes_append: "conn_writes (xs @ ys) = conn_writes xs @ conn_writes ys"
  by (induction xs rule: conn_writes.induct) auto

lemma iface_writes_append: "iface_writes (xs @ ys) = iface_writes xs @ iface_writes ys"
  by (induction xs rule: iface_writes.induct) auto

lemma chan_closes_append: "chan_closes s (xs @ ys) = chan_closes s xs + chan_closes s ys"
  by (induction xs) (auto simp: chan_closes_def)

lemma Close_conn_writes: "conn_writes (trace (Close s w)) = conn_writes (trace w)"
  by (simp add: Close_trace conn_writes_append split: option.splits)

lemma Close_iface_writes: "iface_writes (trace (Close s w)) = iface_writes (trace w)"
  by (simp add: Close_trace iface_writes_append split: option.splits)

lemma Close_chan_closes:
  "chan_closes s' (trace (Close s w)) =
     chan_closes s' (trace w) + (if s' = s \<and> closechanopen (sockets w s) then 1 else 0)"
  by (simp add: Close_trace chan_closes_append chan_closes_def split: option.splits)

lemma WriteMessage_conn_writes:
  "conn_writes (trace (snd (WriteMessage v t d w))) = conn_writes (trace w) @ [(v, t, d)]"
  by (simp add: WriteMessage_def Let_def Close_conn_writes emit_fields conn_writes_append)

lemma WriteMessage_iface_writes:
  "iface_writes (trace (snd (WriteMessage v t d w))) = iface_writes (trace w)"
  by (simp add: WriteMessage_def Let_def Close_iface_writes emit_fields iface_writes_append)

lemma WriteMessage_allSockets:
  "allSockets (snd (WriteMessage v t d w)) =
     (if writeFails w v then AList.delete v (allSockets w) else allSockets w)"
  by (simp add: WriteMessage_def Let_def Close_allSockets emit_fields)

lemma WriteMessage_env:
  "writeFails (snd (WriteMessage v t d w)) = writeFails w"
  "lastCommandId (snd (WriteMessage v t d w)) = lastCommandId w"
  by (simp_all add: WriteMessage_def Let_def Close_env emit_fields)

lemma writeEach_conn_writes:
  "conn_writes (trace (writeEach vs t d w)) = conn_writes (trace w) @ map (\<lambda>v. (v, t, d)) vs"
  by (induction vs arbitrary: w) (simp_all add: WriteMessage_conn_writes)

lemma writeEach_iface_writes:
  "iface_writes (trace (writeEach vs t d w)) = iface_writes (trace w)"
  by (induction vs arbitrary: w) (simp_all add: WriteMessage_iface_writes)

lemma BroadcastMessage_conn_writes:
  "conn_writes (trace (BroadcastMessage t d skip w)) =
     conn_writes (trace w) @ map (\<lambda>v. (v, t, d)) (filter (\<lambda>v. v \<noteq> skip) (map snd (allSockets w)))"
  by (simp add: BroadcastMessage_def writeEach_conn_writes)

lemma BroadcastMessage_iface_writes:
  "iface_writes (trace (BroadcastMessage t d skip w)) = iface_writes (trace w)"
  by (simp add: BroadcastMessage_def writeEach_iface_writes)

lemma allSockets_ok_values:
  assumes "allSockets_ok w"
  shows "map snd (allSockets w) = map fst (allSockets w)"
  using assms by (auto simp: allSockets_ok_def)

lemma allSockets_ok_targets:
  assumes "allSockets_ok w"
  shows "distinct (filter (\<lambda>v. v \<noteq> skip) (map snd (allSockets w)))"
    and "set (filter (\<lambda>v. v \<noteq> skip) (map snd (allSockets w))) = members w - {skip}"
  using assms by (auto simp: allSockets_ok_values members_def allSockets_ok_def)

lemma allSockets_ok_delete:
  assumes "allSockets_ok w" and "allSockets w' = AList.delete s (allSockets w)"
  shows "allSockets_ok w'" and "members w' = members w - {s}"
proof -
  have d: "AList.delete s (allSockets w) = filter (\<lambda>kv. fst kv \<noteq> s) (allSockets w)"
    by (simp add: AList.delete_eq case_prod_unfold eq_commute)
  show "allSockets_ok w'"
    using assms by (auto simp: allSockets_ok_def d distinct_map_filter)
  show "members w' = members w - {s}"
    using assms by (force simp: allSockets_ok_def d members_def)
qed

lemma allSockets_ok_update:
  assumes "allSockets_ok w" and "allSockets w' = AList.update s s (allSockets w)"
  shows "allSockets_ok w'" and "members w' = insert s (members w)"
proof -
  have "set (AList.update s s al) \<subseteq> insert (s, s) (set al)" for al :: "(sockid \<times> sockid) list"
    by (induction al) auto
  then show "allSockets_ok w'"
    using assms by (fastforce simp: allSockets_ok_def distinct_update)
  have "(\<forall>kv \<in> set al. fst kv = snd kv) \<Longrightarrow>
        snd ` set (AList.update s s al) = insert s (snd ` set al)" for al :: "(sockid \<times> sockid) list"
    by (induction al) auto
  then have "snd ` set (AList.update s s (allSockets w)) = insert s (snd ` set (allSockets w))"
    using assms(1) by (simp add: allSockets_ok_def)
  then show "members w' = insert s (members w)"
    using assms by (simp add: members_def)
qed

section \<open>The relay with three Endpoints is well formed\<close>

lemmas relay_defs = relay_def relay_sockets_def MakeSocket_def macA_def macB_def macX_def
  defaultMac_def frame_to_B_def frame_to_X_def frame_to_all_def frame_from_C_def

lemmas op_defs = setMACFrom_def GetSrcMAC_def GetDestMAC_def reslice_def cap_def len_def backing_def
  copy_bytes_def zeroMac_def MACIsUnicast_def FindSocketByMAC_def ifaceWrite_def emit_def
  setSocket_def WriteMessage_def Close_def BroadcastMessage_def Serve_binary_def Let_def
  BinaryMessage_def

lemma relay_allSockets_ok: "allSockets_ok relay"
  by (simp add: allSockets_ok_def relay_def)

lemma relay_macTable_ok: "macTable_ok relay"
  by (simp add: macTable_ok_def relay_defs MACIsUnicast_def)

lemma relay_chan_ok: "chan_ok 11 relay"
  by (simp add: chan_ok_def chan_closes_def relay_defs)

lemma relay_members: "members relay = {11, 12, 13}"
  by (auto simp: members_def relay_def)

section \<open>Close\<close>

lemma defaultMac_not_unicast: "\<not> MACIsUnicast defaultMac"
  by (simp add: MACIsUnicast_def defaultMac_def)

lemma Close_twice:
  "Close s (Close s w) =
     (Close s w)\<lparr>trace := trace (Close s w) @ ConnClose s #
        (case iface (sockets w s) of None \<Rightarrow> [] | Some i \<Rightarrow> [IfaceClose s i])\<rparr>"
proof -
  let ?w1 = "Close s w"
  have s1: "sockets ?w1 s = (sockets w s)\<lparr>closechanopen := False, mac := defaultMac\<rparr>"
    by (simp add: Close_sockets)
  have "sockets (Close s ?w1) = sockets ?w1"
    by (simp add: Close_sockets[of s ?w1] s1) (simp add: Close_sockets)
  moreover have "macTable (Close s ?w1) = macTable ?w1"
    by (simp add: Close_macTable[of s ?w1] s1)
  moreover have "allSockets (Close s ?w1) = allSockets ?w1"
    by (simp add: Close_allSockets delete_idem)
  moreover have "trace (Close s ?w1) = trace ?w1 @ ConnClose s #
        (case iface (sockets w s) of None \<Rightarrow> [] | Some i \<Rightarrow> [IfaceClose s i])"
    by (simp add: Close_trace[of s ?w1] s1)
  ultimately show ?thesis
    by (simp add: Close_env)
qed

lemma Close_owned:
  assumes "macTable_ok w"
  shows "owned (Close s w) s = {}"
proof -
  have "macTable (Close s w) m \<noteq> Some s" for m
  proof
    assume a: "macTable (Close s w) m = Some s"
    then have b: "macTable w m = Some s"
      by (simp add: Close_macTable split: if_splits)
    with assms have "mac (sockets w s) = m" and "MACIsUnicast m"
      by (auto simp: macTable_ok_def)
    then have "mac (sockets w s) \<noteq> defaultMac" and "mac (sockets w s) = m"
      using defaultMac_not_unicast by auto
    with a show False
      by (simp add: Close_macTable)
  qed
  then show ?thesis
    by (simp add: owned_def)
qed

lemma Close_macTable_ok:
  assumes "macTable_ok w"
  shows "macTable_ok (Close s w)"
  unfolding macTable_ok_def
proof (intro allI impI)
  fix m e
  assume a: "macTable (Close s w) m = Some e"
  then have b: "macTable w m = Some e"
    by (simp add: Close_macTable split: if_splits)
  with assms have c: "mac (sockets w e) = m" "MACIsUnicast m"
    by (auto simp: macTable_ok_def)
  have "e \<noteq> s"
    using Close_owned[OF assms, of s] a by (auto simp: owned_def)
  with c show "mac (sockets (Close s w) e) = m \<and> MACIsUnicast m"
    by (simp add: Close_sockets)
qed

lemma Close_chan_ok:
  assumes "chan_ok s' w"
  shows "chan_ok s' (Close s w)"
  using assms by (auto simp: chan_ok_def Close_chan_closes Close_sockets)

text \<open>
  C7. \<open>Close\<close> is idempotent: a second \<open>Close\<close> changes no field of the Endpoint and
  neither table; it only repeats the close calls on the connection and on the
  interface. After \<open>Close\<close> no entry of the switching table belongs to the Endpoint,
  its learned address is the broadcast address again, it is not a member of the Global
  Endpoint Set, so that a broadcast made afterwards writes to a list of targets that
  does not contain it, and its closing signal has been given exactly once, after the
  first \<open>Close\<close> and still after the second. The state is one the operations produce:
  \<open>allSockets\<close> and the switching table are well formed, and the signal was given
  before exactly if \<open>closechanopen\<close> is off.
\<close>

theorem Close_idempotent_and_releases:
  assumes "allSockets_ok w" and "macTable_ok w" and "chan_ok s w"
  shows "Close s (Close s w) =
           (Close s w)\<lparr>trace := trace (Close s w) @ ConnClose s #
              (case iface (sockets w s) of None \<Rightarrow> [] | Some i \<Rightarrow> [IfaceClose s i])\<rparr>
         \<and> owned (Close s w) s = {}
         \<and> mac (sockets (Close s w) s) = defaultMac
         \<and> s \<notin> members (Close s w)
         \<and> (\<exists>targets. s \<notin> set targets \<and>
               conn_writes (trace (BroadcastMessage msgType data skip (Close s w))) =
                 conn_writes (trace (Close s w)) @ map (\<lambda>v. (v, msgType, data)) targets)
         \<and> closechanopen (sockets (Close s w) s) = False
         \<and> chan_closes s (trace (Close s w)) = 1
         \<and> chan_closes s (trace (Close s (Close s w))) = 1"
proof -
  let ?w1 = "Close s w"
  have m: "s \<notin> members ?w1"
    using allSockets_ok_delete(2)[OF assms(1) Close_allSockets] by simp
  have ok1: "allSockets_ok ?w1"
    using allSockets_ok_delete(1)[OF assms(1) Close_allSockets] .
  let ?targets = "filter (\<lambda>v. v \<noteq> skip) (map snd (allSockets ?w1))"
  have "s \<notin> set ?targets"
    using m by (auto simp: members_def)
  then have b: "\<exists>targets. s \<notin> set targets \<and>
               conn_writes (trace (BroadcastMessage msgType data skip ?w1)) =
                 conn_writes (trace ?w1) @ map (\<lambda>v. (v, msgType, data)) targets"
    using BroadcastMessage_conn_writes by blast
  have c1: "chan_closes s (trace ?w1) = 1"
    using assms(3) by (simp add: chan_ok_def Close_chan_closes)
  have c2: "chan_closes s (trace (Close s ?w1)) = 1"
    using c1 by (simp add: Close_chan_closes[of s s ?w1] Close_sockets)
  show ?thesis
    using Close_twice[of s w] Close_owned[OF assms(2), of s] m b c1 c2
    by (simp add: Close_sockets)
qed

theorem Close_idempotent_and_releases_witness:
  "allSockets_ok relay \<and> macTable_ok relay \<and> chan_ok 11 relay
   \<and> mac (sockets relay 11) = macA \<and> macTable relay macA = Some 11 \<and> 11 \<in> members relay
   \<and> owned (Close 11 relay) 11 = {}
   \<and> mac (sockets (Close 11 relay) 11) = defaultMac
   \<and> 11 \<notin> members (Close 11 relay)
   \<and> chan_closes 11 (trace (Close 11 relay)) = 1
   \<and> chan_closes 11 (trace (Close 11 (Close 11 relay))) = 1"
proof -
  have r: "mac (sockets relay 11) = macA" "macTable relay macA = Some 11"
    by (simp_all add: relay_defs)
  note c = Close_idempotent_and_releases[OF relay_allSockets_ok relay_macTable_ok relay_chan_ok,
      where msgType = BinaryMessage and data = "[]" and skip = 11]
  from c have "owned (Close 11 relay) 11 = {}" by (elim conjE)
  moreover from c have "mac (sockets (Close 11 relay) 11) = defaultMac" by (elim conjE)
  moreover from c have "11 \<notin> members (Close 11 relay)" by (elim conjE)
  moreover from c have "chan_closes 11 (trace (Close 11 relay)) = 1" by (elim conjE)
  moreover from c have "chan_closes 11 (trace (Close 11 (Close 11 relay))) = 1" by (elim conjE)
  ultimately show ?thesis
    using relay_allSockets_ok relay_macTable_ok relay_chan_ok r by (simp add: relay_members)
qed

section \<open>MAC learning\<close>

lemma setMACFrom_total:
  assumes "14 \<le> len msg"
  shows "\<exists>w1. setMACFrom s msg w = Inr w1"
  using assms by (simp add: setMACFrom_def GetSrcMAC_bytes Let_def)

lemma setMACFrom_frame:
  assumes "setMACFrom s msg w = Inr w1"
  shows "trace w1 = trace w" and "allSockets w1 = allSockets w"
    and "writeFails w1 = writeFails w" and "lastCommandId w1 = lastCommandId w"
    and "iface (sockets w1 e) = iface (sockets w e)"
    and "closechanopen (sockets w1 e) = closechanopen (sockets w e)"
    and "handlers (sockets w1 e) = handlers (sockets w e)"
  using assms
  by (auto simp: setMACFrom_def Let_def setSocket_fields split: sum.splits if_splits)

lemma setMACFrom_same:
  assumes "GetSrcMAC msg = Inr src" and "\<not> MACIsUnicast src \<or> src = mac (sockets w s)"
  shows "setMACFrom s msg w = Inr w"
  using assms by (auto simp: setMACFrom_def)

lemma setMACFrom_new:
  assumes "GetSrcMAC msg = Inr src" and "MACIsUnicast src" and "src \<noteq> mac (sockets w s)"
  shows "setMACFrom s msg w =
           Inr (w\<lparr>sockets := (sockets w)(s := (sockets w s)\<lparr>mac := src\<rparr>),
                  macTable := (if mac (sockets w s) \<noteq> defaultMac
                               then (macTable w)(mac (sockets w s) := None)
                               else macTable w)(src \<mapsto> s)\<rparr>)"
  using assms by (auto simp: setMACFrom_def Let_def setSocket_def)

lemma setMACFrom_macTable_ok:
  assumes "macTable_ok w" and "setMACFrom s msg w = Inr w1"
  shows "macTable_ok w1"
proof (cases "GetSrcMAC msg")
  case (Inl e)
  with assms(2) show ?thesis by (simp add: setMACFrom_def)
next
  case (Inr src)
  show ?thesis
  proof (cases "\<not> MACIsUnicast src \<or> src = mac (sockets w s)")
    case True
    with Inr assms show ?thesis by (simp add: setMACFrom_same)
  next
    case False
    then have u: "MACIsUnicast src" and n: "src \<noteq> mac (sockets w s)" by auto
    have w1: "w1 = w\<lparr>sockets := (sockets w)(s := (sockets w s)\<lparr>mac := src\<rparr>),
                  macTable := (if mac (sockets w s) \<noteq> defaultMac
                               then (macTable w)(mac (sockets w s) := None)
                               else macTable w)(src \<mapsto> s)\<rparr>"
      using setMACFrom_new[OF Inr u n] assms(2) by simp
    show ?thesis
      unfolding macTable_ok_def
    proof (intro allI impI)
      fix m e
      assume a: "macTable w1 m = Some e"
      show "mac (sockets w1 e) = m \<and> MACIsUnicast m"
      proof (cases "m = src")
        case True
        with a u show ?thesis by (simp add: w1)
      next
        case False
        with a have b: "macTable w m = Some e" and c: "mac (sockets w s) \<noteq> defaultMac \<longrightarrow> m \<noteq> mac (sockets w s)"
          by (auto simp: w1 split: if_splits)
        with assms(1) have d: "mac (sockets w e) = m" "MACIsUnicast m"
          by (auto simp: macTable_ok_def)
        have "e \<noteq> s"
        proof
          assume "e = s"
          with d c have "mac (sockets w s) = defaultMac" by auto
          with d \<open>e = s\<close> show False using defaultMac_not_unicast by simp
        qed
        with d show ?thesis by (simp add: w1)
      qed
    qed
  qed
qed

lemma macTable_ok_owned:
  assumes "macTable_ok w" and "macTable w m = Some e" and "macTable w m' = Some e"
  shows "m = m'"
proof -
  from assms(1,2) have "mac (sockets w e) = m"
    unfolding macTable_ok_def by blast
  moreover from assms(1,3) have "mac (sockets w e) = m'"
    unfolding macTable_ok_def by blast
  ultimately show ?thesis by simp
qed

text \<open>
  C8. MAC learning on a frame of at least 14 bytes, in a state whose switching table is
  well formed. The source address is read without a panic. If it is not unicast, or is
  the address the Endpoint has already learned, nothing changes at all. If it is
  unicast and differs from the learned address, the entry under the old address is
  removed, the new address is the learned one, the table maps it to this Endpoint, this
  Endpoint owns that entry and no other, and learning from the same frame again changes
  nothing. Another Endpoint keeps its learned address and loses at most the entries
  under those two addresses. In every case the table stays well formed, so no Endpoint
  owns two entries.
\<close>

theorem setMACFrom_idempotent_learning:
  assumes "14 \<le> len msg" and "macTable_ok w"
  shows "\<exists>src. GetSrcMAC msg = Inr src
       \<and> (\<not> MACIsUnicast src \<or> src = mac (sockets w s) \<longrightarrow> setMACFrom s msg w = Inr w)
       \<and> (MACIsUnicast src \<and> src \<noteq> mac (sockets w s) \<longrightarrow>
            (\<exists>w1. setMACFrom s msg w = Inr w1
               \<and> setMACFrom s msg w1 = Inr w1
               \<and> mac (sockets w1 s) = src
               \<and> macTable w1 = ((macTable w)(mac (sockets w s) := None))(src \<mapsto> s)
               \<and> owned w1 s = {src}
               \<and> (\<forall>e. e \<noteq> s \<longrightarrow>
                     mac (sockets w1 e) = mac (sockets w e)
                     \<and> owned w1 e = owned w e - {mac (sockets w s), src})))
       \<and> (\<forall>w1. setMACFrom s msg w = Inr w1 \<longrightarrow>
            macTable_ok w1
            \<and> (\<forall>e m m'. macTable w1 m = Some e \<and> macTable w1 m' = Some e \<longrightarrow> m = m'))"
proof -
  obtain src where src: "GetSrcMAC msg = Inr src"
    using assms(1) by (simp add: GetSrcMAC_bytes)
  have same: "setMACFrom s msg w = Inr w" if "\<not> MACIsUnicast src \<or> src = mac (sockets w s)"
    using src that by (rule setMACFrom_same)
  have new: "\<exists>w1. setMACFrom s msg w = Inr w1
               \<and> setMACFrom s msg w1 = Inr w1
               \<and> mac (sockets w1 s) = src
               \<and> macTable w1 = ((macTable w)(mac (sockets w s) := None))(src \<mapsto> s)
               \<and> owned w1 s = {src}
               \<and> (\<forall>e. e \<noteq> s \<longrightarrow>
                     mac (sockets w1 e) = mac (sockets w e)
                     \<and> owned w1 e = owned w e - {mac (sockets w s), src})"
    if a: "MACIsUnicast src \<and> src \<noteq> mac (sockets w s)"
  proof -
    define w1 where "w1 = w\<lparr>sockets := (sockets w)(s := (sockets w s)\<lparr>mac := src\<rparr>),
                    macTable := (if mac (sockets w s) \<noteq> defaultMac
                                 then (macTable w)(mac (sockets w s) := None)
                                 else macTable w)(src \<mapsto> s)\<rparr>"
    have r: "setMACFrom s msg w = Inr w1"
      using setMACFrom_new[OF src] a by (simp add: w1_def)
    have nodef: "macTable w defaultMac = None"
    proof (cases "macTable w defaultMac")
      case (Some e)
      with assms(2) have "MACIsUnicast defaultMac"
        unfolding macTable_ok_def by blast
      with defaultMac_not_unicast show ?thesis by simp
    qed simp
    have t: "macTable w1 = ((macTable w)(mac (sockets w s) := None))(src \<mapsto> s)"
    proof (cases "mac (sockets w s) = defaultMac")
      case True
      with nodef have "(macTable w)(mac (sockets w s) := None) = macTable w"
        by (simp add: fun_eq_iff)
      with True show ?thesis by (simp add: w1_def)
    next
      case False
      then show ?thesis by (simp add: w1_def)
    qed
    have m: "mac (sockets w1 s) = src" by (simp add: w1_def)
    have again: "setMACFrom s msg w1 = Inr w1"
      using src m by (simp add: setMACFrom_same)
    have ok1: "macTable_ok w1" using setMACFrom_macTable_ok[OF assms(2) r] .
    have own: "owned w1 s = {src}"
    proof -
      have "macTable w1 src = Some s" by (simp add: t)
      moreover have "m' = src" if "macTable w1 m' = Some s" for m'
      proof -
        from ok1 that have "mac (sockets w1 s) = m'"
          unfolding macTable_ok_def by blast
        with m show ?thesis by simp
      qed
      ultimately show ?thesis unfolding owned_def by blast
    qed
    have others: "\<forall>e. e \<noteq> s \<longrightarrow>
                     mac (sockets w1 e) = mac (sockets w e)
                     \<and> owned w1 e = owned w e - {mac (sockets w s), src}"
    proof (intro allI impI conjI)
      fix e assume "e \<noteq> s"
      then show "mac (sockets w1 e) = mac (sockets w e)" by (simp add: w1_def)
      show "owned w1 e = owned w e - {mac (sockets w s), src}"
        using \<open>e \<noteq> s\<close> unfolding owned_def t by auto
    qed
    from r again m t own others show ?thesis by blast
  qed
  have inv: "macTable_ok w1
            \<and> (\<forall>e m m'. macTable w1 m = Some e \<and> macTable w1 m' = Some e \<longrightarrow> m = m')"
    if "setMACFrom s msg w = Inr w1" for w1
  proof -
    have ok1: "macTable_ok w1" using setMACFrom_macTable_ok[OF assms(2) that] .
    then show ?thesis using macTable_ok_owned by blast
  qed
  from src same new inv show ?thesis by blast
qed

theorem setMACFrom_idempotent_learning_witness:
  "14 \<le> len frame_from_C \<and> macTable_ok relay
   \<and> GetSrcMAC frame_from_C = Inr macX \<and> MACIsUnicast macX \<and> mac (sockets relay 13) = defaultMac
   \<and> (\<exists>w1. setMACFrom 13 frame_from_C relay = Inr w1 \<and> setMACFrom 13 frame_from_C w1 = Inr w1
          \<and> mac (sockets w1 13) = macX \<and> owned w1 13 = {macX} \<and> macTable_ok w1)
   \<and> 14 \<le> len frame_to_B \<and> GetSrcMAC frame_to_B = Inr macA \<and> mac (sockets relay 11) = macA
   \<and> setMACFrom 11 frame_to_B relay = Inr relay"
proof -
  have h1: "14 \<le> len frame_from_C" by (simp add: relay_defs op_defs)
  have h2: "GetSrcMAC frame_from_C = Inr macX" by (simp add: relay_defs op_defs)
  have h3: "MACIsUnicast macX" by (simp add: relay_defs op_defs)
  have h4: "mac (sockets relay 13) = defaultMac" by (simp add: relay_defs)
  have h5: "macX \<noteq> defaultMac" by (simp add: relay_defs)
  have k1: "14 \<le> len frame_to_B" by (simp add: relay_defs op_defs)
  have k2: "GetSrcMAC frame_to_B = Inr macA" by (simp add: relay_defs op_defs)
  have k3: "mac (sockets relay 11) = macA" by (simp add: relay_defs)
  from setMACFrom_idempotent_learning[OF h1 relay_macTable_ok, of 13] h2 h3 h4 h5
  have a: "\<exists>w1. setMACFrom 13 frame_from_C relay = Inr w1 \<and> setMACFrom 13 frame_from_C w1 = Inr w1
          \<and> mac (sockets w1 13) = macX \<and> owned w1 13 = {macX} \<and> macTable_ok w1"
    by (metis sum.inject(2))
  from setMACFrom_idempotent_learning[OF k1 relay_macTable_ok, of 11] k2 k3
  have b: "setMACFrom 11 frame_to_B relay = Inr relay"
    by (metis sum.inject(2))
  from h1 relay_macTable_ok h2 h3 h4 a k1 k2 k3 b show ?thesis by (intro conjI)
qed

section \<open>Switching\<close>

lemma ifaceWrite_conn_writes: "conn_writes (trace (ifaceWrite s msg w)) = conn_writes (trace w)"
  by (simp add: ifaceWrite_def emit_fields conn_writes_append split: option.splits)

lemma ifaceWrite_iface_writes:
  "iface_writes (trace (ifaceWrite s msg w)) =
     iface_writes (trace w) @
       (case iface (sockets w s) of None \<Rightarrow> [] | Some i \<Rightarrow> [(s, i, elems msg)])"
  by (simp add: ifaceWrite_def emit_fields iface_writes_append split: option.splits)


lemma Serve_binary_unknown:
  assumes "14 \<le> len msg" and "setMACFrom s msg w = Inr w1" and "GetDestMAC msg = Inr dest"
    and "MACIsUnicast dest" and "FindSocketByMAC dest w1 = None"
  shows "Serve_binary s msg w = Inr (ifaceWrite s msg w1)"
  using assms by (simp add: Serve_binary_def)

lemma Serve_binary_multicast:
  assumes "14 \<le> len msg" and "setMACFrom s msg w = Inr w1" and "GetDestMAC msg = Inr dest"
    and "\<not> MACIsUnicast dest"
  shows "Serve_binary s msg w = Inr (ifaceWrite s msg (BroadcastMessage BinaryMessage (elems msg) s w1))"
  using assms by (simp add: Serve_binary_def)







lemma setMACFrom16_frame:
  assumes "setMACFrom16 s msg w = Inr w1"
  shows "trace w1 = trace w" and "allSockets w1 = allSockets w"
    and "iface (sockets w1 e) = iface (sockets w e)"
  using assms
  by (auto simp: setMACFrom16_def Let_def setSocket_fields split: sum.splits if_splits)

lemma Serve_binary16_unknown:
  assumes "14 \<le> len msg" and "setMACFrom16 s msg w = Inr w1" and "GetDestMAC16 msg = Inr dest"
    and "MACIsUnicast dest" and "FindSocketByMAC dest w1 = None"
  shows "Serve_binary16 False s msg w = Inr (ifaceWrite s msg w1)"
  using assms by (simp add: Serve_binary16_def)

lemma Serve_binary16_ipv6:
  assumes "14 \<le> len msg"
  shows "Serve_binary16 True s msg w =
           Inr (ifaceWrite s msg (BroadcastMessage BinaryMessage (elems msg) s w))"
  using assms by (simp add: Serve_binary16_def)

text \<open>
  C1, as the code has it. A binary frame of at least 14 bytes whose destination is
  unicast and has no entry in the switching table when it is looked up (after the
  learning step): the pump makes no transport write at all, to no Endpoint, and writes
  the frame to its own tunnel interface if one is bound. The same holds in the variant
  with an IPv6 switch when the switch is off.
\<close>

theorem unknown_unicast_not_flooded:
  assumes "14 \<le> len msg" and "MACIsUnicast dest"
  shows "(setMACFrom s msg w = Inr w1 \<and> GetDestMAC msg = Inr dest
          \<and> FindSocketByMAC dest w1 = None \<longrightarrow>
            (\<exists>w'. Serve_binary s msg w = Inr w'
               \<and> conn_writes (trace w') = conn_writes (trace w)
               \<and> iface_writes (trace w') =
                   iface_writes (trace w) @
                     (case iface (sockets w s) of None \<Rightarrow> [] | Some i \<Rightarrow> [(s, i, elems msg)])))
       \<and> (setMACFrom16 s msg w = Inr w1 \<and> GetDestMAC16 msg = Inr dest
          \<and> FindSocketByMAC dest w1 = None \<longrightarrow>
            (\<exists>w'. Serve_binary16 False s msg w = Inr w'
               \<and> conn_writes (trace w') = conn_writes (trace w)
               \<and> iface_writes (trace w') =
                   iface_writes (trace w) @
                     (case iface (sockets w s) of None \<Rightarrow> [] | Some i \<Rightarrow> [(s, i, elems msg)])))"
proof (intro conjI impI)
  assume a: "setMACFrom s msg w = Inr w1 \<and> GetDestMAC msg = Inr dest
          \<and> FindSocketByMAC dest w1 = None"
  then have "Serve_binary s msg w = Inr (ifaceWrite s msg w1)"
    using assms by (simp add: Serve_binary_unknown)
  moreover from a have "setMACFrom s msg w = Inr w1" by simp
  then have "trace w1 = trace w" "iface (sockets w1 s) = iface (sockets w s)"
    by (rule setMACFrom_frame)+
  ultimately show "\<exists>w'. Serve_binary s msg w = Inr w'
               \<and> conn_writes (trace w') = conn_writes (trace w)
               \<and> iface_writes (trace w') =
                   iface_writes (trace w) @
                     (case iface (sockets w s) of None \<Rightarrow> [] | Some i \<Rightarrow> [(s, i, elems msg)])"
    by (simp add: ifaceWrite_conn_writes ifaceWrite_iface_writes)
next
  assume a: "setMACFrom16 s msg w = Inr w1 \<and> GetDestMAC16 msg = Inr dest
          \<and> FindSocketByMAC dest w1 = None"
  then have "Serve_binary16 False s msg w = Inr (ifaceWrite s msg w1)"
    using assms by (simp add: Serve_binary16_unknown)
  moreover from a have "setMACFrom16 s msg w = Inr w1" by simp
  then have "trace w1 = trace w" "iface (sockets w1 s) = iface (sockets w s)"
    by (rule setMACFrom16_frame)+
  ultimately show "\<exists>w'. Serve_binary16 False s msg w = Inr w'
               \<and> conn_writes (trace w') = conn_writes (trace w)
               \<and> iface_writes (trace w') =
                   iface_writes (trace w) @
                     (case iface (sockets w s) of None \<Rightarrow> [] | Some i \<Rightarrow> [(s, i, elems msg)])"
    by (simp add: ifaceWrite_conn_writes ifaceWrite_iface_writes)
qed

lemmas op16_defs = setMACFrom16_def GetSrcMAC16_def GetDestMAC16_def Serve_binary16_def frame16_to_X_def

theorem unknown_unicast_not_flooded_witness:
  "14 \<le> len frame_to_X \<and> MACIsUnicast macX
   \<and> setMACFrom 11 frame_to_X relay = Inr relay \<and> GetDestMAC frame_to_X = Inr macX
   \<and> FindSocketByMAC macX relay = None
   \<and> (\<exists>w'. Serve_binary 11 frame_to_X relay = Inr w'
          \<and> conn_writes (trace w') = []
          \<and> iface_writes (trace w') = [(11, 21, elems frame_to_X)])
   \<and> 14 \<le> len frame16_to_X
   \<and> setMACFrom16 11 frame16_to_X relay = Inr relay \<and> GetDestMAC16 frame16_to_X = Inr macX
   \<and> (\<exists>w'. Serve_binary16 False 11 frame16_to_X relay = Inr w'
          \<and> conn_writes (trace w') = []
          \<and> iface_writes (trace w') = [(11, 21, elems frame16_to_X)])"
proof -
  have h1: "14 \<le> len frame_to_X" by (simp add: relay_defs op_defs)
  have h2: "setMACFrom 11 frame_to_X relay = Inr relay" by (simp add: relay_defs op_defs)
  have h3: "GetDestMAC frame_to_X = Inr macX" by (simp add: relay_defs op_defs)
  have h4: "MACIsUnicast macX" by (simp add: relay_defs op_defs)
  have h5: "FindSocketByMAC macX relay = None" by (simp add: relay_defs op_defs)
  have k1: "14 \<le> len frame16_to_X" by (simp add: relay_defs op_defs op16_defs)
  have k2: "setMACFrom16 11 frame16_to_X relay = Inr relay" by (simp add: relay_defs op_defs op16_defs)
  have k3: "GetDestMAC16 frame16_to_X = Inr macX" by (simp add: relay_defs op_defs op16_defs)
  have r: "trace relay = []" "iface (sockets relay 11) = Some 21" by (simp_all add: relay_defs)
  from unknown_unicast_not_flooded[OF h1 h4, of 11 relay relay] h2 h3 h5
  have a: "\<exists>w'. Serve_binary 11 frame_to_X relay = Inr w'
          \<and> conn_writes (trace w') = []
          \<and> iface_writes (trace w') = [(11, 21, elems frame_to_X)]"
    by (simp add: r)
  from unknown_unicast_not_flooded[OF k1 h4, of 11 relay relay] k2 k3 h5
  have b: "\<exists>w'. Serve_binary16 False 11 frame16_to_X relay = Inr w'
          \<and> conn_writes (trace w') = []
          \<and> iface_writes (trace w') = [(11, 21, elems frame16_to_X)]"
    by (simp add: r)
  from h1 h2 h3 h4 h5 k1 k2 k3 a b show ?thesis by (intro conjI)
qed

text \<open>
  Endpoint 11 of the relay receives a frame for an address that is unicast and in no
  entry of the table. Endpoints 12 and 13 are members of the Global Endpoint Set, and
  neither is written to: the only event is the write to the tunnel interface of
  Endpoint 11.
\<close>

theorem unknown_unicast_counterexample:
  "len frame_to_X = 15 \<and> GetDestMAC frame_to_X = Inr macX \<and> MACIsUnicast macX
   \<and> setMACFrom 11 frame_to_X relay = Inr relay \<and> FindSocketByMAC macX relay = None
   \<and> members relay = {11, 12, 13}
   \<and> Serve_binary 11 frame_to_X relay = Inr (relay\<lparr>trace := [IfaceWrite 11 21 (elems frame_to_X)]\<rparr>)"
  by (simp add: relay_members) (simp add: relay_defs op_defs)

lemma writeEach_sockets_iface:
  "iface (sockets (writeEach vs t d w) e) = iface (sockets w e)"
  by (induction vs arbitrary: w) (simp_all add: WriteMessage_def Let_def Close_sockets emit_fields)

text \<open>
  C6. The fan-out writes the message once to each member of the Global Endpoint Set
  other than the one to skip: the transport writes it makes are one write per element
  of a list without repetitions whose elements are exactly the other members. In the
  pump, a binary frame of at least 14 bytes with a multicast or broadcast destination
  is written in this way to every member other than the receiving Endpoint, byte for
  byte.
\<close>

theorem broadcast_once_to_each_other:
  assumes "allSockets_ok w"
  shows "(\<exists>targets. distinct targets \<and> set targets = members w - {skip}
            \<and> conn_writes (trace (BroadcastMessage msgType data skip w)) =
                conn_writes (trace w) @ map (\<lambda>v. (v, msgType, data)) targets)
       \<and> (14 \<le> len msg \<and> (\<exists>dest. GetDestMAC msg = Inr dest \<and> \<not> MACIsUnicast dest) \<longrightarrow>
            (\<exists>w' targets. Serve_binary s msg w = Inr w'
               \<and> distinct targets \<and> set targets = members w - {s}
               \<and> conn_writes (trace w') =
                   conn_writes (trace w) @ map (\<lambda>v. (v, BinaryMessage, elems msg)) targets))"
proof (intro conjI impI)
  show "\<exists>targets. distinct targets \<and> set targets = members w - {skip}
            \<and> conn_writes (trace (BroadcastMessage msgType data skip w)) =
                conn_writes (trace w) @ map (\<lambda>v. (v, msgType, data)) targets"
    using allSockets_ok_targets[OF assms, of skip] BroadcastMessage_conn_writes by blast
next
  assume a: "14 \<le> len msg \<and> (\<exists>dest. GetDestMAC msg = Inr dest \<and> \<not> MACIsUnicast dest)"
  then obtain dest where d: "GetDestMAC msg = Inr dest" "\<not> MACIsUnicast dest" by blast
  from a obtain w1 where w1: "setMACFrom s msg w = Inr w1"
    using setMACFrom_total by blast
  have ok1: "allSockets_ok w1" and m1: "members w1 = members w"
    using assms setMACFrom_frame(2)[OF w1] by (simp_all add: allSockets_ok_def members_def)
  let ?targets = "filter (\<lambda>v. v \<noteq> s) (map snd (allSockets w1))"
  have "Serve_binary s msg w = Inr (ifaceWrite s msg (BroadcastMessage BinaryMessage (elems msg) s w1))"
    using Serve_binary_multicast[OF _ w1 d] a by simp
  moreover have "conn_writes (trace (ifaceWrite s msg (BroadcastMessage BinaryMessage (elems msg) s w1))) =
      conn_writes (trace w) @ map (\<lambda>v. (v, BinaryMessage, elems msg)) ?targets"
    by (simp add: ifaceWrite_conn_writes BroadcastMessage_conn_writes setMACFrom_frame(1)[OF w1])
  moreover have "distinct ?targets" "set ?targets = members w - {s}"
    using allSockets_ok_targets[OF ok1, of s] m1 by simp_all
  ultimately show "\<exists>w' targets. Serve_binary s msg w = Inr w'
               \<and> distinct targets \<and> set targets = members w - {s}
               \<and> conn_writes (trace w') =
                   conn_writes (trace w) @ map (\<lambda>v. (v, BinaryMessage, elems msg)) targets"
    by blast
qed

theorem broadcast_once_to_each_other_witness:
  "allSockets_ok relay \<and> 14 \<le> len frame_to_all
   \<and> GetDestMAC frame_to_all = Inr defaultMac \<and> \<not> MACIsUnicast defaultMac
   \<and> (\<exists>w' targets. Serve_binary 11 frame_to_all relay = Inr w'
          \<and> distinct targets \<and> set targets = {12, 13}
          \<and> conn_writes (trace w') = map (\<lambda>v. (v, BinaryMessage, elems frame_to_all)) targets)"
proof -
  have h1: "14 \<le> len frame_to_all" by (simp add: relay_defs op_defs)
  have h3: "GetDestMAC frame_to_all = Inr defaultMac" by (simp add: relay_defs op_defs)
  have h4: "\<not> MACIsUnicast defaultMac" by (rule defaultMac_not_unicast)
  have r: "trace relay = []" by (simp_all add: relay_defs)
  have m: "members relay - {11} = {12, 13}" by (auto simp: relay_members)
  from broadcast_once_to_each_other[OF relay_allSockets_ok, of 11 BinaryMessage "[]" frame_to_all 11]
  have "\<exists>w' targets. Serve_binary 11 frame_to_all relay = Inr w'
               \<and> distinct targets \<and> set targets = members relay - {11}
               \<and> conn_writes (trace w') =
                   conn_writes (trace relay) @ map (\<lambda>v. (v, BinaryMessage, elems frame_to_all)) targets"
    using h1 h3 h4 by blast
  then show ?thesis
    using relay_allSockets_ok h1 h3 h4 by (simp add: r m)
qed

section \<open>The well-formed states are closed under the operations\<close>

lemma world_ok_start:
  assumes "macTable w = Map.empty" and "allSockets w = []" and "trace w = []"
    and "\<forall>s. closechanopen (sockets w s)"
  shows "world_ok w"
  using assms by (simp add: world_ok_def allSockets_ok_def macTable_ok_def chan_ok_def chan_closes_def)

lemma Close_world_ok:
  assumes "world_ok w"
  shows "world_ok (Close s w)"
  using assms allSockets_ok_delete(1)[OF _ Close_allSockets, of w s]
  by (simp add: world_ok_def Close_macTable_ok Close_chan_ok)

lemma emit_world_ok:
  assumes "world_ok w" and "\<forall>s. e \<noteq> ChanClose s"
  shows "world_ok (emit e w)"
  using assms
  by (simp add: world_ok_def allSockets_ok_def macTable_ok_def chan_ok_def emit_fields
      chan_closes_append chan_closes_def)







lemma setSocket_world_ok:
  assumes "world_ok w" and "mac v = mac (sockets w s)" and "closechanopen v = closechanopen (sockets w s)"
  shows "world_ok (setSocket s v w)"
  using assms
  by (simp add: world_ok_def allSockets_ok_def macTable_ok_def chan_ok_def setSocket_fields)

lemma Serve_start_world_ok:
  assumes "world_ok w"
  shows "world_ok (Serve_start s w)"
proof -
  let ?w1 = "setSocket s ((sockets w s)\<lparr>wg := wg (sockets w s) + (if iface (sockets w s) = None then 2 else 3)\<rparr>) w"
  have ok1: "world_ok ?w1" using assms by (simp add: setSocket_world_ok)
  have eq: "Serve_start s w = ?w1\<lparr>allSockets := AList.update s s (allSockets ?w1)\<rparr>"
    by (simp add: Serve_start_def Let_def)
  have "allSockets_ok (Serve_start s w)"
    using allSockets_ok_update(1)[of ?w1 "Serve_start s w" s] ok1 eq by (simp add: world_ok_def)
  moreover have "macTable_ok (Serve_start s w)" "\<forall>s'. chan_ok s' (Serve_start s w)"
    using ok1 by (simp_all add: eq world_ok_def macTable_ok_def chan_ok_def)
  ultimately show ?thesis by (simp add: world_ok_def)
qed

lemma closeDone_world_ok:
  assumes "world_ok w"
  shows "world_ok (closeDone s w)"
proof -
  let ?w2 = "Close s (setSocket s ((sockets w s)\<lparr>wg := wg (sockets w s) - 1\<rparr>) w)"
  have ok2: "world_ok ?w2"
    using assms by (simp add: setSocket_world_ok Close_world_ok)
  have "world_ok (setSocket s ((sockets ?w2 s)\<lparr>reaped := True\<rparr>) (emit (Reap s fn c) ?w2))" for fn c
    using ok2 by (simp add: setSocket_world_ok emit_world_ok emit_fields)
  with ok2 show ?thesis
    by (simp add: closeDone_def Let_def split: option.splits)
qed






section \<open>closeDone and the reap callback\<close>

lemma closeDone_as_steps:
  "closeDone s w = snd (run_schedule s [0, 0, 0, 0, 0] ([AtDone], w))"
  by (simp add: closeDone_def run_schedule_def task_step_def closeDone_step_def Let_def
      setSocket_fields emit_fields split: option.splits)

lemma reaps_emit:
  "reaps s (emit e w) = reaps s w + (case e of Reap s' fn client \<Rightarrow> if s' = s then 1 else 0 | _ \<Rightarrow> 0)"
  by (simp add: reaps_def emit_fields split: event.splits)

lemma reaps_Close: "reaps s (Close s' w) = reaps s w"
  by (simp add: reaps_def Close_trace split: option.splits)

lemma reaps_setSocket: "reaps s (setSocket s' v w) = reaps s w"
  by (simp add: reaps_def setSocket_fields)

lemma closeDone_reaps:
  "reaps s (closeDone s w) =
     reaps s w + (if reaper (sockets w s) \<noteq> None \<and> \<not> reaped (sockets w s) then 1 else 0)"
  by (auto simp: closeDone_def Let_def reaps_emit reaps_Close reaps_setSocket Close_sockets
      setSocket_fields emit_fields split: option.splits)

lemma closeDone_reaped:
  "reaper (sockets (closeDone s w) s) = reaper (sockets w s)"
  "reaped (sockets (closeDone s w) s) = (reaped (sockets w s) \<or> reaper (sockets w s) \<noteq> None)"
  by (auto simp: closeDone_def Let_def Close_sockets setSocket_fields emit_fields split: option.splits)

text \<open>
  When the calls of \<open>closeDone\<close> run one after another, any number of them invokes a
  callback that is set and has not run exactly once.
\<close>

lemma closeDone_sequential_once:
  assumes "reaper (sockets w s) \<noteq> None" and "\<not> reaped (sockets w s)"
  shows "reaps s ((closeDone s ^^ Suc n) w) = reaps s w + 1
         \<and> reaped (sockets ((closeDone s ^^ Suc n) w) s)
         \<and> reaper (sockets ((closeDone s ^^ Suc n) w) s) \<noteq> None"
proof (induction n)
  case 0
  show ?case using assms by (simp add: closeDone_reaps closeDone_reaped)
next
  case (Suc n)
  then show ?case by (auto simp: closeDone_reaps closeDone_reaped split: if_splits)
qed

text \<open>
  C3. Endpoint 11 of the relay has a reap callback that has not run. Its three
  background tasks reach \<open>closeDone\<close> together: each counts itself done, closes and
  tests \<open>reaped\<close> before any of them has set it. All three then invoke the callback:
  when the three tasks have finished \<open>closeDone\<close>, the callback has been invoked three
  times.
\<close>

theorem closeDone_interleaved_reaps_thrice:
  "reaps 11 relay = 0
   \<and> fst (run_schedule 11 [0, 0, 0, 1, 1, 1, 2, 2, 2, 0, 0, 1, 1, 2, 2]
            ([AtDone, AtDone, AtDone], relay)) = [AtEnd, AtEnd, AtEnd]
   \<and> reaps 11 (snd (run_schedule 11 [0, 0, 0, 1, 1, 1, 2, 2, 2, 0, 0, 1, 1, 2, 2]
                      ([AtDone, AtDone, AtDone], relay))) = 3"
  by (simp add: run_schedule_def task_step_def closeDone_step_def reaps_def relay_defs
      Close_def Let_def emit_def setSocket_def)

section \<open>Control commands\<close>

lemma char_of_unat_of_char: "char_of (unat (of_char c :: byte)) = c"
proof -
  have "(of_char c :: byte) = of_nat (of_char c)"
    by (simp only: of_nat_of_char)
  then have "unat (of_char c :: byte) = (of_char c :: nat) mod 256"
    by (simp only: unat_of_nat) simp
  then show ?thesis by simp
qed

lemma string_of_bytes_of_string: "string_of_bytes (bytes_of_string str) = str"
  by (simp add: string_of_bytes_def bytes_of_string_def char_of_unat_of_char map_idI)

lemma Split_nonempty: "Split str sep \<noteq> []"
  by (induction str) (auto split: list.splits)

lemma Split_no_sep: "sep \<notin> set a \<Longrightarrow> Split a sep = [a]"
  by (induction a) auto




lemma rawSendCommand_conn_writes:
  "conn_writes (trace (snd (rawSendCommand s commandId command args w))) =
     conn_writes (trace w) @
       [(s, TextMessage, bytes_of_string (commandId @ ''|'' @ command @ ''|'' @ Join args ''|''))]"
  by (simp add: rawSendCommand_def WriteMessage_conn_writes)

lemma Serve_text_malformed:
  assumes "Split (string_of_bytes (elems msg)) (CHR ''|'') = str" and "length str < 2"
  shows "Serve_text H s msg w = emit (Log s LogInvalidCommand) w"
  using assms by (simp add: Serve_text_def Let_def)

lemma Serve_text_reply:
  assumes "Split (string_of_bytes (elems msg)) (CHR ''|'') = str" and "2 \<le> length str"
    and "str ! 1 = ''reply''"
  shows "Serve_text H s msg w =
           emit (Log s (LogReply (str ! 0) (if 2 < length str then str ! 2 else ''N/A''))) w"
  using assms by (simp add: Serve_text_def Let_def)

lemma Serve_text_unknown:
  assumes "Split (string_of_bytes (elems msg)) (CHR ''|'') = str" and "2 \<le> length str"
    and "str ! 1 \<noteq> ''reply''" and "handlers (sockets w s) (str ! 1) = None"
  shows "Serve_text H s msg w =
           snd (rawSendCommand s (str ! 0) ''reply'' [''false'']
                  (emit (Log s (LogCommandError (str ! 1))) w))"
  using assms by (simp add: Serve_text_def Let_def sprint_bool_def)

lemma Serve_text_known:
  assumes "Split (string_of_bytes (elems msg)) (CHR ''|'') = str" and "2 \<le> length str"
    and "str ! 1 \<noteq> ''reply''" and "handlers (sockets w s) (str ! 1) = Some h"
    and "H h (drop 2 str) (emit (Invoke s h (drop 2 str)) w) = (err, w1)"
  shows "Serve_text H s msg w =
           snd (rawSendCommand s (str ! 0) ''reply'' [sprint_bool (\<not> err)]
                  (if err then emit (Log s (LogCommandError (str ! 1))) w1 else w1))"
  using assms by (simp add: Serve_text_def Let_def)

text \<open>
  C9, as the code has it. Let \<open>str\<close> be the fields of a received text message. With
  fewer than two fields the message is only logged: no reply is written. With the
  command name \<open>reply\<close> the message is only logged, whatever the handlers are: nothing
  is dispatched and nothing is written. With any other name that has no handler, the
  one transport write is the reply \<open>ID|reply|false\<close> to the sender. With a handler,
  the handler runs on the fields after the second, and the reply written after it
  carries the same ID and \<open>true\<close> or \<open>false\<close> as the handler returned no error or an
  error. In every case the pump goes on with the next message.
\<close>

theorem Serve_text_reply_protocol:
  assumes "Split (string_of_bytes (elems msg)) (CHR ''|'') = str"
  shows "(length str < 2 \<longrightarrow> Serve_text H s msg w = emit (Log s LogInvalidCommand) w)
       \<and> (2 \<le> length str \<and> str ! 1 = ''reply'' \<longrightarrow>
            Serve_text H s msg w =
              emit (Log s (LogReply (str ! 0) (if 2 < length str then str ! 2 else ''N/A''))) w)
       \<and> (2 \<le> length str \<and> str ! 1 \<noteq> ''reply'' \<and> handlers (sockets w s) (str ! 1) = None \<longrightarrow>
            conn_writes (trace (Serve_text H s msg w)) =
              conn_writes (trace w) @ [(s, TextMessage, bytes_of_string (str ! 0 @ ''|reply|false''))])
       \<and> (\<forall>h err w1.
            2 \<le> length str \<and> str ! 1 \<noteq> ''reply'' \<and> handlers (sockets w s) (str ! 1) = Some h
            \<and> H h (drop 2 str) (emit (Invoke s h (drop 2 str)) w) = (err, w1) \<longrightarrow>
            conn_writes (trace (Serve_text H s msg w)) =
              conn_writes (trace w1) @
                [(s, TextMessage, bytes_of_string (str ! 0 @ ''|reply|'' @ sprint_bool (\<not> err)))])
       \<and> Serve_readPump H s (Message TextMessage msg # rest) w =
           Serve_readPump H s rest (Serve_text H s msg w)"
proof (intro conjI impI allI)
  assume "length str < 2"
  with assms show "Serve_text H s msg w = emit (Log s LogInvalidCommand) w"
    by (rule Serve_text_malformed)
next
  assume "2 \<le> length str \<and> str ! 1 = ''reply''"
  with assms show "Serve_text H s msg w =
      emit (Log s (LogReply (str ! 0) (if 2 < length str then str ! 2 else ''N/A''))) w"
    by (simp add: Serve_text_reply)
next
  assume "2 \<le> length str \<and> str ! 1 \<noteq> ''reply'' \<and> handlers (sockets w s) (str ! 1) = None"
  with assms have "Serve_text H s msg w =
           snd (rawSendCommand s (str ! 0) ''reply'' [''false'']
                  (emit (Log s (LogCommandError (str ! 1))) w))"
    by (simp add: Serve_text_unknown)
  then show "conn_writes (trace (Serve_text H s msg w)) =
      conn_writes (trace w) @ [(s, TextMessage, bytes_of_string (str ! 0 @ ''|reply|false''))]"
    by (simp add: rawSendCommand_conn_writes emit_fields conn_writes_append)
next
  fix h err w1
  assume a: "2 \<le> length str \<and> str ! 1 \<noteq> ''reply'' \<and> handlers (sockets w s) (str ! 1) = Some h
            \<and> H h (drop 2 str) (emit (Invoke s h (drop 2 str)) w) = (err, w1)"
  with assms have "Serve_text H s msg w =
           snd (rawSendCommand s (str ! 0) ''reply'' [sprint_bool (\<not> err)]
                  (if err then emit (Log s (LogCommandError (str ! 1))) w1 else w1))"
    by (simp add: Serve_text_known)
  then show "conn_writes (trace (Serve_text H s msg w)) =
              conn_writes (trace w1) @
                [(s, TextMessage, bytes_of_string (str ! 0 @ ''|reply|'' @ sprint_bool (\<not> err)))]"
    by (simp add: rawSendCommand_conn_writes emit_fields conn_writes_append)
next
  show "Serve_readPump H s (Message TextMessage msg # rest) w =
           Serve_readPump H s rest (Serve_text H s msg w)"
    by (simp add: Serve_message_def TextMessage_def BinaryMessage_def)
qed

lemma bogus_split: "Split (string_of_bytes (elems bogus_command)) (CHR ''|'') = [''7'', ''bogus'', ''x'']"
  by (simp add: bogus_command_def string_of_bytes_of_string)

lemma malformed_split:
  "Split (string_of_bytes (elems malformed_command)) (CHR ''|'') = [''hello'']"
  by (simp add: malformed_command_def string_of_bytes_of_string)

lemma reply_split:
  "Split (string_of_bytes (elems reply_notification)) (CHR ''|'') = [''7'', ''reply'', ''true'']"
  by (simp add: reply_notification_def string_of_bytes_of_string)

lemma ping_split:
  "Split (string_of_bytes (elems ping_command)) (CHR ''|'') = [''5'', ''ping'', []]"
  by (simp add: ping_command_def string_of_bytes_of_string)

theorem Serve_text_reply_protocol_witness:
  "Split (string_of_bytes (elems bogus_command)) (CHR ''|'') = [''7'', ''bogus'', ''x'']
   \<and> handlers (sockets relay 11) ''bogus'' = None
   \<and> conn_writes (trace (Serve_text H0 11 bogus_command relay)) =
       [(11, TextMessage, bytes_of_string ''7|reply|false'')]
   \<and> Serve_readPump H0 11 [Message TextMessage bogus_command] relay =
       Inr (Serve_text H0 11 bogus_command relay)
   \<and> Serve_text H0 11 malformed_command relay = emit (Log 11 LogInvalidCommand) relay
   \<and> Serve_text H0 11 reply_notification relay = emit (Log 11 (LogReply ''7'' ''true'')) relay
   \<and> handlers (sockets relay_with_handler 12) ''ping'' = Some 4
   \<and> conn_writes (trace (Serve_text H0 12 ping_command relay_with_handler)) =
       [(12, TextMessage, bytes_of_string ''5|reply|true'')]"
proof -
  have h: "handlers (sockets relay 11) ''bogus'' = None" "trace relay = []"
    by (simp_all add: relay_defs)
  have k: "handlers (sockets relay_with_handler 12) ''ping'' = Some 4"
    "trace relay_with_handler = []"
    by (simp_all add: relay_with_handler_def AddCommandHandler_def setSocket_def relay_def)
  have run: "H0 4 [[]] (emit (Invoke 12 4 [[]]) relay_with_handler) =
      (False, emit (Invoke 12 4 [[]]) relay_with_handler)"
    by (simp add: H0_def)
  from Serve_text_reply_protocol[OF bogus_split, of H0 11 relay "[]"] h
  have a: "conn_writes (trace (Serve_text H0 11 bogus_command relay)) =
       [(11, TextMessage, bytes_of_string ''7|reply|false'')]"
    and b: "Serve_readPump H0 11 [Message TextMessage bogus_command] relay =
       Inr (Serve_text H0 11 bogus_command relay)"
    by simp_all
  from Serve_text_reply_protocol[OF malformed_split, of H0 11 relay "[]"]
  have c: "Serve_text H0 11 malformed_command relay = emit (Log 11 LogInvalidCommand) relay"
    by simp
  from Serve_text_reply_protocol[OF reply_split, of H0 11 relay "[]"]
  have d: "Serve_text H0 11 reply_notification relay = emit (Log 11 (LogReply ''7'' ''true'')) relay"
    by simp
  note q = Serve_text_reply_protocol[OF ping_split, of H0 12 relay_with_handler "[]",
      THEN conjunct2, THEN conjunct2, THEN conjunct2, THEN conjunct1, rule_format,
      of 4 False "emit (Invoke 12 4 [[]]) relay_with_handler"]
  from q k run
  have e: "conn_writes (trace (Serve_text H0 12 ping_command relay_with_handler)) =
       [(12, TextMessage, bytes_of_string ''5|reply|true'')]"
    by (simp add: emit_fields sprint_bool_def)
  from bogus_split h(1) a b c d k(1) e show ?thesis by (intro conjI)
qed

text \<open>
  A text message without a delimiter: Endpoint 11 logs it and writes nothing back.
\<close>

theorem malformed_command_counterexample:
  "Split (string_of_bytes (elems malformed_command)) (CHR ''|'') = [''hello'']
   \<and> Serve_text H0 11 malformed_command relay = relay\<lparr>trace := [Log 11 LogInvalidCommand]\<rparr>
   \<and> conn_writes [Log 11 LogInvalidCommand] = []"
  by (simp add: malformed_command_def string_of_bytes_of_string Serve_text_def emit_def relay_def)

lemma digit_chars:
  "char_of (48::nat) = CHR ''0''" "char_of (49::nat) = CHR ''1''" "char_of (50::nat) = CHR ''2''"
  "char_of (51::nat) = CHR ''3''" "char_of (52::nat) = CHR ''4''" "char_of (53::nat) = CHR ''5''"
  "char_of (54::nat) = CHR ''6''" "char_of (55::nat) = CHR ''7''" "char_of (56::nat) = CHR ''8''"
  "char_of (57::nat) = CHR ''9''"
  by (simp_all add: char_of_eq_iff take_bit_nat_eq_self)





section \<open>The address pool\<close>

lemmas pool_eval = Contains_def IP_Mask_def IP_String_def HasSuffix_def incIP_def
  decimal.simps isNil_def bind_address_def mark_address_def Get_def reapIP_def server30_def
  Let_def digit_chars pickIP_def pickIP_scan.simps Execute_init_def Execute_scan.simps

lemma Execute_init_server30: "Execute_init (server30 cfg) = Some (pool30 cfg)"
  unfolding pool30_def by (simp add: pool_eval)

lemma pool30_fills:
  assumes "Get cfg (''host_'' @ n1) = []" and "Get cfg (''host_'' @ n2) = []"
    and "Get cfg (''host_'' @ n3) = []"
  shows "map_option fst (run_pool [Joins n1 r1, Joins n2 r2, Joins n3 r3] (pool30 cfg)) =
          Some [Inr ''10.0.0.2'', Inr ''10.0.0.3'', Inl OutOfIPAddresses]"
  using assms by (simp add: pool30_def pool_eval)

lemma pool30_release:
  assumes "Get cfg (''host_'' @ n1) = []" and "Get cfg (''host_'' @ n2) = []"
    and "Get cfg (''host_'' @ n3) = []" and "Get cfg (''host_'' @ n4) = []"
    and "Get cfg (''host_'' @ n5) = []"
    and "x = ''10.0.0.1'' \<or> x = ''10.0.0.2'' \<or> x = ''10.0.0.3''"
  shows "map_option fst
           (run_pool [Joins n1 r1, Joins n2 r2, Joins n3 r3, Leaves x, Joins n4 r4, Joins n5 r5]
              (pool30 cfg)) =
          Some [Inr ''10.0.0.2'', Inr ''10.0.0.3'', Inl OutOfIPAddresses, Inr x, Inl OutOfIPAddresses]"
  using assms(6)
proof (elim disjE)
  assume "x = ''10.0.0.1''"
  with assms(1-5) show ?thesis by (simp add: pool30_def pool_eval)
next
  assume "x = ''10.0.0.2''"
  with assms(1-5) show ?thesis by (simp add: pool30_def pool_eval)
next
  assume "x = ''10.0.0.3''"
  with assms(1-5) show ?thesis by (simp add: pool30_def pool_eval)
qed

text \<open>
  C2, as the code has it. The pool is configured with subnet 10.0.0.0/30 and marked by
  \<open>Execute\<close>, which binds the first address of the range, 10.0.0.1, to the server.
  For names without a fixed mapping in the configuration: two allocations succeed,
  with the distinct addresses 10.0.0.2 and 10.0.0.3, and the third fails with the
  pool-exhausted error; after one bound address is released, exactly one more
  allocation succeeds (it returns the released address) and the next one fails again.
\<close>

theorem pool30_two_clients:
  assumes "Get cfg (''host_'' @ n1) = []" and "Get cfg (''host_'' @ n2) = []"
    and "Get cfg (''host_'' @ n3) = []" and "Get cfg (''host_'' @ n4) = []"
    and "Get cfg (''host_'' @ n5) = []"
  shows "map_option fst
           (Option.bind (Execute_init (server30 cfg))
              (run_pool [Joins n1 r1, Joins n2 r2, Joins n3 r3])) =
           Some [Inr ''10.0.0.2'', Inr ''10.0.0.3'', Inl OutOfIPAddresses]
       \<and> (\<forall>x. x = ''10.0.0.1'' \<or> x = ''10.0.0.2'' \<or> x = ''10.0.0.3'' \<longrightarrow>
            map_option fst
              (Option.bind (Execute_init (server30 cfg))
                 (run_pool [Joins n1 r1, Joins n2 r2, Joins n3 r3, Leaves x,
                            Joins n4 r4, Joins n5 r5])) =
            Some [Inr ''10.0.0.2'', Inr ''10.0.0.3'', Inl OutOfIPAddresses, Inr x,
                  Inl OutOfIPAddresses])"
proof (intro conjI allI impI)
  show "map_option fst
           (Option.bind (Execute_init (server30 cfg))
              (run_pool [Joins n1 r1, Joins n2 r2, Joins n3 r3])) =
           Some [Inr ''10.0.0.2'', Inr ''10.0.0.3'', Inl OutOfIPAddresses]"
    by (simp only: Execute_init_server30 Option.bind.simps pool30_fills[OF assms(1-3)])
next
  fix x :: string
  assume "x = ''10.0.0.1'' \<or> x = ''10.0.0.2'' \<or> x = ''10.0.0.3''"
  then show "map_option fst
              (Option.bind (Execute_init (server30 cfg))
                 (run_pool [Joins n1 r1, Joins n2 r2, Joins n3 r3, Leaves x,
                            Joins n4 r4, Joins n5 r5])) =
            Some [Inr ''10.0.0.2'', Inr ''10.0.0.3'', Inl OutOfIPAddresses, Inr x,
                  Inl OutOfIPAddresses]"
    by (simp only: Execute_init_server30 Option.bind.simps pool30_release[OF assms])
qed

theorem pool30_two_clients_witness:
  "Get Map.empty (''host_'' @ ''alice'') = [] \<and> Get Map.empty (''host_'' @ ''bob'') = []
   \<and> Get Map.empty (''host_'' @ ''carol'') = []
   \<and> map_option fst
        (Option.bind (Execute_init (server30 Map.empty))
           (run_pool [Joins ''alice'' ''192.0.2.1'', Joins ''bob'' ''192.0.2.2'',
                      Joins ''carol'' ''192.0.2.3'', Leaves ''10.0.0.2'',
                      Joins ''carol'' ''192.0.2.3'', Joins ''alice'' ''192.0.2.1''])) =
       Some [Inr ''10.0.0.2'', Inr ''10.0.0.3'', Inl OutOfIPAddresses, Inr ''10.0.0.2'',
             Inl OutOfIPAddresses]"
proof -
  have h: "Get Map.empty (''host_'' @ ''alice'') = []" "Get Map.empty (''host_'' @ ''bob'') = []"
    "Get Map.empty (''host_'' @ ''carol'') = []"
    by (simp_all add: Get_def)
  note t = pool30_two_clients[OF h(1) h(2) h(3) h(3) h(1),
      of "''192.0.2.1''" "''192.0.2.2''" "''192.0.2.3''" "''192.0.2.3''" "''192.0.2.1''"]
  from t have "\<forall>x. x = ''10.0.0.1'' \<or> x = ''10.0.0.2'' \<or> x = ''10.0.0.3'' \<longrightarrow>
            map_option fst
              (Option.bind (Execute_init (server30 Map.empty))
                 (run_pool [Joins ''alice'' ''192.0.2.1'', Joins ''bob'' ''192.0.2.2'',
                      Joins ''carol'' ''192.0.2.3'', Leaves x,
                      Joins ''carol'' ''192.0.2.3'', Joins ''alice'' ''192.0.2.1''])) =
            Some [Inr ''10.0.0.2'', Inr ''10.0.0.3'', Inl OutOfIPAddresses, Inr x,
                  Inl OutOfIPAddresses]"
    by (rule conjunct2)
  from this[rule_format, of "''10.0.0.2''"]
  have "map_option fst
        (Option.bind (Execute_init (server30 Map.empty))
           (run_pool [Joins ''alice'' ''192.0.2.1'', Joins ''bob'' ''192.0.2.2'',
                      Joins ''carol'' ''192.0.2.3'', Leaves ''10.0.0.2'',
                      Joins ''carol'' ''192.0.2.3'', Joins ''alice'' ''192.0.2.1''])) =
       Some [Inr ''10.0.0.2'', Inr ''10.0.0.3'', Inl OutOfIPAddresses, Inr ''10.0.0.2'',
             Inl OutOfIPAddresses]"
    by simp
  with h show ?thesis by (intro conjI)
qed

text \<open>
  Three clients with distinct names join the freshly marked pool: the third is refused.
\<close>

theorem pool30_third_client_counterexample:
  "map_option fst
     (Option.bind (Execute_init (server30 Map.empty))
        (run_pool [Joins ''alice'' ''192.0.2.1'', Joins ''bob'' ''192.0.2.2'',
                   Joins ''carol'' ''192.0.2.3''])) =
     Some [Inr ''10.0.0.2'', Inr ''10.0.0.3'', Inl OutOfIPAddresses]"
  by (simp add: pool30_def pool_eval)

end
